theory Spec2Isabelle
  imports Complex_Main
begin

section \<open>Python exceptions\<close>

text \<open>
  Every exception the modelled code can raise is a value of this type; a function that can
  raise returns \<open>py_error + 'a\<close> with the exception on the left.
\<close>

datatype py_error =
    ValueError
  | IndexError
  | AttributeError
  | TypeError
  | KeyError string
  | NameError string
  | JSONDecodeError
  | RasterioError
  | StorageUnavailable

section \<open>The exhaustive scan of \<open>test_similarity_search.py\<close>\<close>

text \<open>
  The script recomputes the search on the stored array (lines 93 to 97 and 107 to 111):
  \<^verbatim>\<open>
  test_emb_f32 = np.array(embedding, dtype=np.float32) / 255.0
  all_emb_f32 = all_embeddings.astype(np.float32) / 255.0
  diff = all_emb_f32 - test_emb_f32[np.newaxis, :]
  distances = np.sqrt(np.sum(diff ** 2, axis=1))
  ...
  count = np.sum(distances <= th)
  \<close>
  \<open>embedding\<close> is the JSON list the extract call returned, \<open>all_embeddings\<close> the
  two-dimensional array of stored vectors, one row per pixel. The quantised 8-bit domain is
  the predicate \<open>is_uint8\<close>.

  The scan is embedded twice. \<open>distances\<close>, \<open>below\<close> and \<open>count\<close> are the scan in exact
  arithmetic over the reals; they serve the properties that no rounding changes (a larger
  threshold never loses a match, a pixel matches its own vector). \<open>distances_f32\<close>,
  \<open>below_f32\<close> and \<open>count_f32\<close>, further down, are the scan as numpy computes it, in IEEE
  single precision, and serve every property that speaks of the value of a distance or of
  the pixels on the boundary of a threshold.
\<close>

record ndarray =
  ncols :: nat
  rows :: "real list list"

definition well_shaped :: "ndarray \<Rightarrow> bool" where
  "well_shaped A = list_all (\<lambda>r. length r = ncols A) (rows A)"

definition is_uint8 :: "real list \<Rightarrow> bool" where
  "is_uint8 v = list_all (\<lambda>x. x \<in> \<nat> \<and> x \<le> 255) v"

text \<open>Division of a vector by 255.0, componentwise.\<close>

definition scale255 :: "real list \<Rightarrow> real list" where
  "scale255 v = map (\<lambda>x. x / 255) v"

text \<open>
  \<open>row - v\<close> under numpy's broadcasting of the last axis: equal lengths subtract
  componentwise, a one-element operand is stretched over the other one.
\<close>

definition sub_row :: "real list \<Rightarrow> real list \<Rightarrow> real list" where
  "sub_row r v =
     (if length r = length v then map2 (\<lambda>x y. x - y) r v
      else (case v of
              [c] \<Rightarrow> map (\<lambda>x. x - c) r
            | _ \<Rightarrow> (case r of [a] \<Rightarrow> map (\<lambda>y. a - y) v | _ \<Rightarrow> [])))"

text \<open>
  \<open>A - v[np.newaxis, :]\<close>: shapes \<open>(N, D)\<close> and \<open>(1, D')\<close> broadcast when \<open>D = D'\<close> or one
  of them is 1; otherwise numpy raises ValueError, also for an array without rows.
\<close>

definition broadcast_sub :: "ndarray \<Rightarrow> real list \<Rightarrow> py_error + ndarray" where
  "broadcast_sub A v =
     (if ncols A = length v \<or> length v = 1 \<or> ncols A = 1
      then Inr \<lparr>ncols = (if ncols A = 1 then length v else ncols A),
                rows = map (\<lambda>r. sub_row r v) (rows A)\<rparr>
      else Inl ValueError)"

definition distances :: "real list \<Rightarrow> ndarray \<Rightarrow> py_error + real list" where
  "distances embedding all_embeddings =
     (let test_emb_f32 = scale255 embedding;
          all_emb_f32 = all_embeddings\<lparr>rows := map scale255 (rows all_embeddings)\<rparr>
      in case broadcast_sub all_emb_f32 test_emb_f32 of
           Inl e \<Rightarrow> Inl e
         | Inr diff \<Rightarrow> Inr (map (\<lambda>r. sqrt (sum_list (map (\<lambda>x. x ^ 2) r))) (rows diff)))"



subsection \<open>The distance as the specification words it\<close>

text \<open>
  The specification's steps 2 and 3: both vectors are divided by 255, then the distance is
  \<open>sqrt(\<Sum> (query[i] - stored[i])\<^sup>2)\<close> over the components of the query.
\<close>

definition euclidean :: "real list \<Rightarrow> real list \<Rightarrow> real" where
  "euclidean query stored = sqrt (\<Sum>i<length query. (query ! i - stored ! i) ^ 2)"

definition spec_distance :: "real list \<Rightarrow> real list \<Rightarrow> real" where
  "spec_distance query stored = euclidean (scale255 query) (scale255 stored)"

section \<open>The scan in single precision\<close>

subsection \<open>IEEE single precision\<close>

text \<open>
  A finite \<open>np.float32\<close> value is a real number \<open>m * 2^e\<close> with a 24-bit significand.
  \<open>float32\<close> rounds a real number to the nearest such value, ties to the even significand;
  below \<open>2^-126\<close> the spacing stays \<open>2^-149\<close> (subnormal numbers). Every numpy operation of the
  scan is the exact operation followed by this rounding. Infinities and NaN are left out:
  the results stay finite, which they do on the 8-bit domain.
\<close>

definition round_even :: "real \<Rightarrow> int" where
  "round_even y =
     (let f = \<lfloor>y\<rfloor>; r = y - of_int f
      in if r < 1 / 2 then f else if 1 / 2 < r then f + 1 else if even f then f else f + 1)"

definition ulp32 :: "real \<Rightarrow> real" where
  "ulp32 x = 2 powi (max \<lfloor>log 2 \<bar>x\<bar>\<rfloor> (- 126) - 23)"

definition float32 :: "real \<Rightarrow> real" where
  "float32 x = (if x = 0 then 0 else of_int (round_even (x / ulp32 x)) * ulp32 x)"

definition f32_div :: "real \<Rightarrow> real \<Rightarrow> real" where
  "f32_div a b = float32 (a / b)"

definition f32_sub :: "real \<Rightarrow> real \<Rightarrow> real" where
  "f32_sub a b = float32 (a - b)"

definition f32_add :: "real \<Rightarrow> real \<Rightarrow> real" where
  "f32_add a b = float32 (a + b)"

definition f32_square :: "real \<Rightarrow> real" where
  "f32_square x = float32 (x * x)"

definition f32_sqrt :: "real \<Rightarrow> real" where
  "f32_sqrt x = float32 (sqrt x)"

subsection \<open>The lines of the script\<close>

text \<open>
  \<open>np.array(embedding, dtype=np.float32) / 255.0\<close> and
  \<open>all_embeddings.astype(np.float32) / 255.0\<close>: every component is converted to single
  precision and divided by 255 in single precision.
\<close>

definition scale255_f32 :: "real list \<Rightarrow> real list" where
  "scale255_f32 v = map (\<lambda>x. f32_div (float32 x) 255) v"

text \<open>The broadcast subtraction, as \<open>sub_row\<close> and \<open>broadcast_sub\<close> above, in single
  precision.\<close>

definition sub_row_f32 :: "real list \<Rightarrow> real list \<Rightarrow> real list" where
  "sub_row_f32 r v =
     (if length r = length v then map2 f32_sub r v
      else (case v of
              [c] \<Rightarrow> map (\<lambda>x. f32_sub x c) r
            | _ \<Rightarrow> (case r of [a] \<Rightarrow> map (\<lambda>y. f32_sub a y) v | _ \<Rightarrow> [])))"

definition broadcast_sub_f32 :: "ndarray \<Rightarrow> real list \<Rightarrow> py_error + ndarray" where
  "broadcast_sub_f32 A v =
     (if ncols A = length v \<or> length v = 1 \<or> ncols A = 1
      then Inr \<lparr>ncols = (if ncols A = 1 then length v else ncols A),
                rows = map (\<lambda>r. sub_row_f32 r v) (rows A)\<rparr>
      else Inl ValueError)"

text \<open>
  \<open>np.sum(..., axis=1)\<close> adds each row with numpy's pairwise summation: fewer than 8 values
  are added one after the other; up to 128 values are added into eight running sums, which
  are then combined two by two, and the values left over are added one after the other; a
  longer row is split in two halves, the first a multiple of 8 long. The sum of the row is
  added to the initial value 0 of the result.
\<close>

function accumulate :: "real list \<Rightarrow> real list \<Rightarrow> real list \<times> real list" where
  "accumulate r xs =
     (if length xs < 8 then (r, xs)
      else accumulate (map2 f32_add r (take 8 xs)) (drop 8 xs))"
  by pat_completeness auto
termination
  by (relation "measure (\<lambda>(r, xs). length xs)") auto

function pairwise_sum :: "real list \<Rightarrow> real" where
  "pairwise_sum a =
     (let n = length a
      in if n < 8 then foldl f32_add 0 a
         else if n \<le> 128 then
           (let (r, rest) = accumulate (take 8 a) (drop 8 a);
                res = f32_add (f32_add (f32_add (r ! 0) (r ! 1)) (f32_add (r ! 2) (r ! 3)))
                              (f32_add (f32_add (r ! 4) (r ! 5)) (f32_add (r ! 6) (r ! 7)))
            in foldl f32_add res rest)
         else
           (let n2 = n div 2 - (n div 2) mod 8
            in f32_add (pairwise_sum (take n2 a)) (pairwise_sum (drop n2 a))))"
  by pat_completeness auto
termination
  by (relation "measure length") (auto simp: Let_def)

declare accumulate.simps [simp del] pairwise_sum.simps [simp del]

definition np_sum :: "real list \<Rightarrow> real" where
  "np_sum a = f32_add 0 (pairwise_sum a)"

definition distances_f32 :: "real list \<Rightarrow> ndarray \<Rightarrow> py_error + real list" where
  "distances_f32 embedding all_embeddings =
     (let test_emb_f32 = scale255_f32 embedding;
          all_emb_f32 = all_embeddings\<lparr>rows := map scale255_f32 (rows all_embeddings)\<rparr>
      in case broadcast_sub_f32 all_emb_f32 test_emb_f32 of
           Inl e \<Rightarrow> Inl e
         | Inr diff \<Rightarrow> Inr (map (\<lambda>r. f32_sqrt (np_sum (map f32_square r))) (rows diff)))"

text \<open>
  \<open>distances <= th\<close> compares an array of single precision with a Python float: numpy
  converts the threshold to single precision and compares there.
\<close>

definition below_f32 :: "real list \<Rightarrow> real \<Rightarrow> bool list" where
  "below_f32 ds th = map (\<lambda>d. d \<le> float32 th) ds"

definition count_f32 :: "real list \<Rightarrow> real \<Rightarrow> nat" where
  "count_f32 ds th = sum_list (map (\<lambda>b. if b then 1 else 0) (below_f32 ds th))"

subsection \<open>The distance of the specification, evaluated in single precision\<close>

text \<open>
  \<open>sqrt(\<Sum> (query[i] - stored[i])\<^sup>2)\<close> on the components divided by 255, every operation
  rounded to single precision and the sum taken as numpy takes it.
\<close>

definition distance_f32 :: "real list \<Rightarrow> real list \<Rightarrow> real" where
  "distance_f32 query vec =
     f32_sqrt (np_sum (map (\<lambda>i. f32_square (f32_sub (f32_div (query ! i) 255) (f32_div (vec ! i) 255)))
       [0..<length query]))"

section \<open>The migration of \<open>migrate_labels_to_sqlite.py\<close>\<close>

subsection \<open>JSON values and the Python operations on them\<close>

text \<open>
  A value as \<open>json.load\<close> returns it. An object is the list of its items, with distinct
  keys. \<open>d.get(key, default)\<close> exists on a dict only; \<open>len\<close> and iteration exist on
  lists, dicts and strings.
\<close>

datatype json =
    JNull
  | JBool bool
  | JInt int
  | JFloat real
  | JStr string
  | JArr "json list"
  | JObj "(string \<times> json) list"

definition dict_get :: "json \<Rightarrow> string \<Rightarrow> json \<Rightarrow> py_error + json" where
  "dict_get d key dflt =
     (case d of
        JObj items \<Rightarrow> Inr (case map_of items key of None \<Rightarrow> dflt | Some v \<Rightarrow> v)
      | _ \<Rightarrow> Inl AttributeError)"

definition py_len :: "json \<Rightarrow> py_error + nat" where
  "py_len v =
     (case v of
        JStr s \<Rightarrow> Inr (length s)
      | JArr xs \<Rightarrow> Inr (length xs)
      | JObj items \<Rightarrow> Inr (length items)
      | _ \<Rightarrow> Inl TypeError)"

definition py_iter :: "json \<Rightarrow> py_error + json list" where
  "py_iter v =
     (case v of
        JStr s \<Rightarrow> Inr (map (\<lambda>c. JStr [c]) s)
      | JArr xs \<Rightarrow> Inr xs
      | JObj items \<Rightarrow> Inr (map (\<lambda>(k, _). JStr k) items)
      | _ \<Rightarrow> Inl TypeError)"

subsection \<open>The label store\<close>

text \<open>
  Modelled from the spec: \<open>backend.labels_db\<close> (\<open>init_db\<close>, \<open>save_label\<close>,
  \<open>get_label_count\<close>) is imported by the script and is not among the source files. The
  store holds labels (viewport, name) with their pixels (x, y); \<open>init_db\<close> creates the
  schema if absent and fails only when the store cannot be opened; \<open>save_label\<close> persists
  one label of the legacy form \<open>{name, pixels: [[x, y], ...]}\<close> with its pixel list and
  raises on a malformed one, writing nothing; \<open>get_label_count\<close> counts the labels of a
  viewport. Timestamps are left out.
\<close>

record stored_label =
  sl_viewport :: string
  sl_name :: string
  sl_pixels :: "(nat \<times> nat) list"

record labels_db =
  available :: bool
  stored :: "stored_label list"

text \<open>Modelled from the spec: \<open>init_db\<close> of \<open>backend.labels_db\<close>. It creates the schema
  if absent, may be called repeatedly, and fails only when the store cannot be opened.\<close>

definition init_db :: "labels_db \<Rightarrow> py_error + labels_db" where
  "init_db d = (if available d then Inr d else Inl StorageUnavailable)"

text \<open>Modelled from the spec: \<open>get_label_count\<close> of \<open>backend.labels_db\<close>, the number of
  labels the store holds for a viewport.\<close>

definition get_label_count :: "labels_db \<Rightarrow> string \<Rightarrow> nat" where
  "get_label_count d viewport = length (filter (\<lambda>l. sl_viewport l = viewport) (stored d))"

text \<open>Modelled from the spec: the legacy form of a label, \<open>{name, pixels: [[x, y], ...]}\<close>
  with non-negative integer coordinates, as \<open>save_label\<close> of \<open>backend.labels_db\<close> reads
  it. A label without its name or its pixel list, or with an entry that is not such a pair,
  is malformed.\<close>

definition as_pixel :: "json \<Rightarrow> (nat \<times> nat) option" where
  "as_pixel v =
     (case v of
        JArr [JInt x, JInt y] \<Rightarrow> (if 0 \<le> x \<and> 0 \<le> y then Some (nat x, nat y) else None)
      | _ \<Rightarrow> None)"

definition parse_label :: "json \<Rightarrow> py_error + (string \<times> (nat \<times> nat) list)" where
  "parse_label label =
     (case label of
        JObj items \<Rightarrow>
          (case map_of items ''name'' of
             None \<Rightarrow> Inl (KeyError ''name'')
           | Some (JStr n) \<Rightarrow>
               (case map_of items ''pixels'' of
                  None \<Rightarrow> Inl (KeyError ''pixels'')
                | Some (JArr ps) \<Rightarrow>
                    (case those (map as_pixel ps) of
                       None \<Rightarrow> Inl ValueError
                     | Some pxs \<Rightarrow> Inr (n, pxs))
                | Some _ \<Rightarrow> Inl TypeError)
           | Some _ \<Rightarrow> Inl TypeError)
      | _ \<Rightarrow> Inl TypeError)"

text \<open>Modelled from the spec: \<open>save_label\<close> of \<open>backend.labels_db\<close>. It persists one
  label with its pixels, or raises on a malformed label and writes nothing.\<close>

definition save_label :: "labels_db \<Rightarrow> string \<Rightarrow> json \<Rightarrow> py_error + labels_db" where
  "save_label d viewport label =
     (case parse_label label of
        Inl e \<Rightarrow> Inl e
      | Inr (n, pxs) \<Rightarrow>
          Inr (d\<lparr>stored := stored d @ [\<lparr>sl_viewport = viewport, sl_name = n, sl_pixels = pxs\<rparr>]\<rparr>))"

subsection \<open>The script\<close>

text \<open>
  One legacy file: the viewport name the script derives from the file name
  (\<open>json_file.stem.replace('_labels', '')\<close>) and what \<open>open\<close> and \<open>json.load\<close> give,
  an exception or the parsed value. The files come in the order of \<open>sorted(json_files)\<close>.
\<close>

record json_file =
  viewport_name :: string
  content :: "py_error + json"

text \<open>
  An entry of \<open>errors\<close>: the script formats \<open>viewport/name: exception\<close> for a label and
  \<open>viewport: exception\<close> for a file.
\<close>

datatype error_entry =
    LabelError string json py_error
  | FileError string py_error

record migration =
  db :: labels_db
  total_labels :: nat
  total_pixels :: nat
  errors :: "error_entry list"

text \<open>
  The body of the inner loop (lines 66 to 71), on the run's state and the file's
  \<open>viewport_pixels\<close>:
  \<^verbatim>\<open>
  try:
      save_label(viewport_name, label)
      total_labels += 1
      viewport_pixels += len(label.get('pixels', []))
  except Exception as e:
      errors.append(f"{viewport_name}/{label.get('name', 'unknown')}: {e}")
  \<close>
  The handler evaluates \<open>label.get\<close> itself; an exception there leaves the loop, with the
  state as it is at that point.
\<close>

definition import_label ::
  "string \<Rightarrow> json \<Rightarrow> migration \<times> nat \<Rightarrow> (py_error \<times> migration) + (migration \<times> nat)" where
  "import_label viewport label s =
     (let (m, viewport_pixels) = s;
          handler = (\<lambda>e m'.
            case dict_get label ''name'' (JStr ''unknown'') of
              Inl e' \<Rightarrow> Inl (e', m')
            | Inr n \<Rightarrow> Inr (m'\<lparr>errors := errors m' @ [LabelError viewport n e]\<rparr>, viewport_pixels))
      in case save_label (db m) viewport label of
           Inl e \<Rightarrow> handler e m
         | Inr d' \<Rightarrow>
             (let m1 = m\<lparr>db := d', total_labels := total_labels m + 1\<rparr>
              in case dict_get label ''pixels'' (JArr []) of
                   Inl e \<Rightarrow> handler e m1
                 | Inr p \<Rightarrow>
                     (case py_len p of
                        Inl e \<Rightarrow> handler e m1
                      | Inr n \<Rightarrow> Inr (m1, viewport_pixels + n))))"

fun import_labels ::
  "string \<Rightarrow> json list \<Rightarrow> migration \<times> nat \<Rightarrow> (py_error \<times> migration) + (migration \<times> nat)" where
  "import_labels viewport [] s = Inr s"
| "import_labels viewport (label # labels) s =
     (case import_label viewport label s of
        Inl x \<Rightarrow> Inl x
      | Inr s' \<Rightarrow> import_labels viewport labels s')"

text \<open>
  The outer \<open>try\<close> block (lines 58 to 75): load the file, read \<open>labels\<close>, run the inner
  loop, add the file's pixels to the total.
\<close>

definition import_file :: "json_file \<Rightarrow> migration \<Rightarrow> (py_error \<times> migration) + migration" where
  "import_file f m =
     (case content f of
        Inl e \<Rightarrow> Inl (e, m)
      | Inr data \<Rightarrow>
          (case dict_get data ''labels'' (JArr []) of
             Inl e \<Rightarrow> Inl (e, m)
           | Inr labels \<Rightarrow>
               (case py_iter labels of
                  Inl e \<Rightarrow> Inl (e, m)
                | Inr ls \<Rightarrow>
                    (case import_labels (viewport_name f) ls (m, 0) of
                       Inl x \<Rightarrow> Inl x
                     | Inr (m', viewport_pixels) \<Rightarrow>
                         Inr (m'\<lparr>total_pixels := total_pixels m' + viewport_pixels\<rparr>)))))"

text \<open>
  One round of the loop over the files (lines 49 to 79): a viewport with labels in the
  store is skipped; an exception of the \<open>try\<close> block is appended to \<open>errors\<close>.
\<close>

definition migrate_file :: "migration \<Rightarrow> json_file \<Rightarrow> migration" where
  "migrate_file m f =
     (let existing_count = get_label_count (db m) (viewport_name f)
      in if existing_count > 0 then m
         else (case import_file f m of
                 Inl (e, m') \<Rightarrow> m'\<lparr>errors := errors m' @ [FileError (viewport_name f) e]\<rparr>
               | Inr m' \<Rightarrow> m'))"

text \<open>
  \<open>migrate()\<close>: an exception of \<open>init_db\<close> is not caught and ends the run; without files
  the function returns at once.
\<close>

definition migrate :: "labels_db \<Rightarrow> json_file list \<Rightarrow> py_error + migration" where
  "migrate d json_files =
     (case init_db d of
        Inl e \<Rightarrow> Inl e
      | Inr d' \<Rightarrow>
          (let m0 = \<lparr>db = d', total_labels = 0, total_pixels = 0, errors = []\<rparr>
           in if json_files = [] then Inr m0
              else Inr (foldl migrate_file m0 json_files)))"

section \<open>The viewer page of \<open>create_web_viewer.py\<close>\<close>

subsection \<open>Values, names and the placeholders of an f-string\<close>

datatype pyval =
    PNone
  | PStr string
  | PInt int
  | PFloat real
  | PList "pyval list"
  | PPath string
  | PObject

text \<open>\<open>str.title()\<close> on ASCII text: the first letter of every run of letters in upper case,
  the rest of the run in lower case.\<close>

definition is_lower :: "char \<Rightarrow> bool" where
  "is_lower c = (97 \<le> (of_char c :: nat) \<and> (of_char c :: nat) \<le> 122)"

definition is_upper :: "char \<Rightarrow> bool" where
  "is_upper c = (65 \<le> (of_char c :: nat) \<and> (of_char c :: nat) \<le> 90)"

definition to_upper :: "char \<Rightarrow> char" where
  "to_upper c = (if is_lower c then char_of ((of_char c :: nat) - 32) else c)"

definition to_lower :: "char \<Rightarrow> char" where
  "to_lower c = (if is_upper c then char_of ((of_char c :: nat) + 32) else c)"

fun title_from :: "bool \<Rightarrow> string \<Rightarrow> string" where
  "title_from previous_is_cased [] = []"
| "title_from previous_is_cased (c # cs) =
     (if is_lower c \<or> is_upper c
      then (if previous_is_cased then to_lower c else to_upper c) # title_from True cs
      else c # title_from False cs)"

definition title :: "string \<Rightarrow> string" where
  "title s = title_from False s"

text \<open>
  The names the module binds at its top level: its imports, constants and functions, and
  the variables of the \<open>__main__\<close> block. Python's names are case sensitive.
\<close>

definition module_globals :: "string list" where
  "module_globals =
     [''sys'', ''json'', ''Path'', ''base64'', ''Image'', ''rasterio'', ''transform_bounds'',
      ''get_active_viewport'', ''DATA_DIR'', ''PYRAMIDS_DIR'', ''YEARS'', ''get_image_bounds'',
      ''create_html_viewer'', ''viewport_id'', ''viewport_bounds'', ''viewport'']"

text \<open>A name is looked up among the function's locals, then among the module's globals; a
  name bound in neither raises NameError (no builtin is called CENTER or INITIAL_ZOOM).\<close>

definition lookup :: "(string \<times> pyval) list \<Rightarrow> string \<Rightarrow> py_error + pyval" where
  "lookup locals n =
     (case map_of locals n of
        Some v \<Rightarrow> Inr v
      | None \<Rightarrow> if n \<in> set module_globals then Inr PObject else Inl (NameError n))"

text \<open>The two forms of placeholder in the page: \<open>{name}\<close> and \<open>{name.title()}\<close>. Only a
  string has the method \<open>title\<close>.\<close>

datatype placeholder = Name string | Title string

definition eval :: "(string \<times> pyval) list \<Rightarrow> placeholder \<Rightarrow> py_error + pyval" where
  "eval locals p =
     (case p of
        Name n \<Rightarrow> lookup locals n
      | Title n \<Rightarrow>
          (case lookup locals n of
             Inl e \<Rightarrow> Inl e
           | Inr (PStr s) \<Rightarrow> Inr (PStr (title s))
           | Inr _ \<Rightarrow> Inl AttributeError))"

text \<open>An f-string evaluates its placeholders from left to right and stops at the first
  exception.\<close>

fun fstring :: "(string \<times> pyval) list \<Rightarrow> placeholder list \<Rightarrow> py_error + pyval list" where
  "fstring locals [] = Inr []"
| "fstring locals (p # ps) =
     (case eval locals p of
        Inl e \<Rightarrow> Inl e
      | Inr v \<Rightarrow> (case fstring locals ps of Inl e \<Rightarrow> Inl e | Inr vs \<Rightarrow> Inr (v # vs)))"

text \<open>
  The placeholders of the page (the f-string of lines 77 to 400), in the order of the text:
  the title (line 81), the heading (line 178), the three constants of the script block
  (lines 237 to 239) and the two keys of localStorage (lines 350 and 355). The literal text
  between them is constant and left out.
\<close>

definition html_placeholders :: "placeholder list" where
  "html_placeholders =
     [Title ''viewport_id'', Title ''viewport_id'', Name ''CENTER'', Name ''INITIAL_ZOOM'',
      Name ''bounds'', Name ''viewport_id'', Name ''viewport_id'']"

subsection \<open>The function\<close>

text \<open>
  \<open>create_html_viewer(viewport_id=None, viewport_bounds=None)\<close>. The bounds are the tuple
  \<open>(min_lat, min_lon, max_lat, max_lon)\<close>. \<open>sample_img\<close> is the environment: None when
  \<open>level_4.tif\<close> does not exist, otherwise what \<open>get_image_bounds\<close> gives, an exception or
  bounds. The result is the file written, its name and the values of the placeholders, or
  the exception that ends the call before the file is opened.
\<close>

definition output_name :: "string option \<Rightarrow> string" where
  "output_name viewport_id =
     (case viewport_id of
        Some s \<Rightarrow> if s \<noteq> [] then s @ ''_viewer.html'' else ''bangalore_viewer.html''
      | None \<Rightarrow> ''bangalore_viewer.html'')"

text \<open>The local variables after lines 36 to 67 of the file, the latest binding of a name
  first.\<close>

definition viewer_locals ::
  "string option \<Rightarrow> (real \<times> real \<times> real \<times> real) option \<Rightarrow> (string \<times> pyval) list" where
  "viewer_locals viewport_id viewport_bounds =
     (let arguments =
            [(''viewport_id'', case viewport_id of Some s \<Rightarrow> PStr s | None \<Rightarrow> PNone),
             (''viewport_bounds'',
                case viewport_bounds of
                  Some (b0, b1, b2, b3) \<Rightarrow> PList [PFloat b0, PFloat b1, PFloat b2, PFloat b3]
                | None \<Rightarrow> PNone),
             (''output_html'', PPath (output_name viewport_id))]
      in case viewport_bounds of
           Some (b0, b1, b2, b3) \<Rightarrow>
             (let center = PList [PFloat ((b0 + b2) / 2), PFloat ((b1 + b3) / 2)];
                  lat_extent = b2 - b0;
                  lon_extent = b3 - b1;
                  extent = max lat_extent lon_extent;
                  initial_zoom =
                    (if extent < 0.05 then 15
                     else if extent < 0.1 then 14
                     else if extent < 0.2 then 13
                     else 12);
                  bounds = PList [PList [PFloat b0, PFloat b1], PList [PFloat b2, PFloat b3]]
              in [(''center'', center), (''lat_extent'', PFloat lat_extent),
                  (''lon_extent'', PFloat lon_extent), (''extent'', PFloat extent),
                  (''initial_zoom'', PInt initial_zoom), (''bounds'', bounds)] @ arguments)
         | None \<Rightarrow>
             [(''center'', PList [PFloat 12.97, PFloat 77.59]),
              (''initial_zoom'', PInt 12),
              (''bounds'', PList [PList [PFloat 12.83, PFloat 77.46],
                                  PList [PFloat 13.14, PFloat 77.78]]),
              (''viewport_id'', PStr ''bangalore'')] @ arguments)"

definition create_html_viewer ::
  "string option \<Rightarrow> (real \<times> real \<times> real \<times> real) option \<Rightarrow> (py_error + pyval) option \<Rightarrow>
   py_error + (string \<times> pyval list)" where
  "create_html_viewer viewport_id viewport_bounds sample_img =
     (let output_html = output_name viewport_id;
          locals = (''sample_img'', PPath ''level_4.tif'') # viewer_locals viewport_id viewport_bounds
      in case (case sample_img of
                 None \<Rightarrow> Inr locals
               | Some (Inl e) \<Rightarrow> Inl e
               | Some (Inr image_bounds) \<Rightarrow> Inr ((''bounds'', image_bounds) # locals)) of
           Inl e \<Rightarrow> Inl e
         | Inr locals' \<Rightarrow>
             (case fstring locals' html_placeholders of
                Inl e \<Rightarrow> Inl e
              | Inr html \<Rightarrow> Inr (output_html, html)))"

section \<open>Auxiliary notions\<close>

subsection \<open>What a legacy file adds to the store\<close>

text \<open>
  The rows the inner loop appends for a list of records: a record the store accepts gives
  one row, a rejected JSON object is passed over, a rejected value of another kind ends the
  list. The rows of a file are those of its \<open>labels\<close>. A file is settled in a store when
  a run over it changes nothing: its viewport has labels, or the file has no row to add.
\<close>

fun new_rows :: "string \<Rightarrow> json list \<Rightarrow> stored_label list" where
  "new_rows viewport [] = []"
| "new_rows viewport (label # labels) =
     (case parse_label label of
        Inr (n, pxs) \<Rightarrow>
          \<lparr>sl_viewport = viewport, sl_name = n, sl_pixels = pxs\<rparr> # new_rows viewport labels
      | Inl e \<Rightarrow> (case label of JObj items \<Rightarrow> new_rows viewport labels | _ \<Rightarrow> []))"

definition file_rows :: "json_file \<Rightarrow> stored_label list" where
  "file_rows f =
     (case content f of
        Inl e \<Rightarrow> []
      | Inr data \<Rightarrow>
          (case dict_get data ''labels'' (JArr []) of
             Inl e \<Rightarrow> []
           | Inr labels \<Rightarrow>
               (case py_iter labels of
                  Inl e \<Rightarrow> []
                | Inr ls \<Rightarrow> new_rows (viewport_name f) ls)))"

definition settled :: "labels_db \<Rightarrow> json_file \<Rightarrow> bool" where
  "settled d f \<longleftrightarrow> 0 < get_label_count d (viewport_name f) \<or> file_rows f = []"

definition is_object :: "json \<Rightarrow> bool" where
  "is_object v = (case v of JObj items \<Rightarrow> True | _ \<Rightarrow> False)"

subsection \<open>The exponent of a single-precision number\<close>

text \<open>The binary exponent that fixes the spacing of the single-precision numbers around
  \<open>x\<close>, as in \<open>ulp32\<close>.\<close>

definition expo :: "real \<Rightarrow> int" where
  "expo x = max \<lfloor>log 2 \<bar>x\<bar>\<rfloor> (- 126)"

subsection \<open>Sample data\<close>

definition tree_label :: json where
  "tree_label = JObj [(''name'', JStr ''tree''), (''pixels'', JArr [JArr [JInt 1, JInt 2]])]"

definition road_label :: json where
  "road_label = JObj [(''name'', JStr ''road''),
     (''pixels'', JArr [JArr [JInt 3, JInt 4], JArr [JInt 5, JInt 6]])]"

definition no_pixels_label :: json where
  "no_pixels_label = JObj [(''name'', JStr ''water'')]"

definition empty_db :: labels_db where
  "empty_db = \<lparr>available = True, stored = []\<rparr>"

definition labels_file :: "string \<Rightarrow> json list \<Rightarrow> json_file" where
  "labels_file viewport labels =
     \<lparr>viewport_name = viewport, content = Inr (JObj [(''labels'', JArr labels)])\<rparr>"

section \<open>Properties of the scan in exact arithmetic\<close>

subsection \<open>Helper facts\<close>



lemma distances_length: "distances q A = Inr ds \<Longrightarrow> length ds = length (rows A)"
  by (auto simp: distances_def broadcast_sub_def Let_def split: if_splits)






lemma scale255_unit_interval:
  "is_uint8 v \<Longrightarrow> list_all (\<lambda>x. 0 \<le> x \<and> x \<le> 1) (scale255 v)"
  by (auto simp: is_uint8_def scale255_def list_all_iff Nats_def)

subsection \<open>The threshold and the self-match\<close>





section \<open>Properties of the scan in single precision\<close>

subsection \<open>Rounding\<close>

lemma floor_log2_eqI:
  assumes "2 powi e \<le> x" and "x < 2 powi (e + 1)"
  shows "\<lfloor>log 2 x\<rfloor> = e"
proof -
  have pos: "0 < x"
    using assms(1) by (rule less_le_trans [rotated]) simp
  have "(2::real) powr real_of_int e = 2 powi e"
    by (rule powr_real_of_int') simp_all
  moreover have "(2::real) powr real_of_int (e + 1) = 2 powi (e + 1)"
    by (rule powr_real_of_int') simp_all
  ultimately have "2 powr real_of_int e \<le> x \<and> x < 2 powr real_of_int (e + 1)"
    using assms by simp
  with pos show ?thesis
    by (subst floor_log_eq_powr_iff) simp_all
qed

lemma float32_eval:
  assumes "2 powi e \<le> \<bar>x\<bar>" and "\<bar>x\<bar> < 2 powi (e + 1)" and "- 126 \<le> e"
  shows "float32 x = of_int (round_even (x / 2 powi (e - 23))) * 2 powi (e - 23)"
proof -
  have "\<lfloor>log 2 \<bar>x\<bar>\<rfloor> = e" using assms(1,2) by (rule floor_log2_eqI)
  moreover have "x \<noteq> 0"
  proof
    assume "x = 0"
    with assms(1) have "(2::real) powi e \<le> 0" by simp
    moreover have "0 < (2::real) powi e" by simp
    ultimately show False by simp
  qed
  ultimately show ?thesis using assms(3) by (simp add: float32_def ulp32_def max_def)
qed

lemma round_even_eqI:
  assumes "of_int n - 1 / 2 < y" and "y < of_int n + 1 / 2"
  shows "round_even y = n"
proof (cases "of_int n \<le> y")
  case True
  with assms have "\<lfloor>y\<rfloor> = n" by (intro floor_unique) auto
  with assms show ?thesis by (simp add: round_even_def Let_def)
next
  case False
  with assms have "\<lfloor>y\<rfloor> = n - 1" by (intro floor_unique) auto
  with assms False show ?thesis by (simp add: round_even_def Let_def)
qed

lemma round_even_minus: "round_even (- y) = - round_even y"
proof (cases "y = of_int \<lfloor>y\<rfloor>")
  case True
  then have "\<lfloor>- y\<rfloor> = - \<lfloor>y\<rfloor>"
    by (metis floor_of_int of_int_minus)
  with True show ?thesis by (simp add: round_even_def Let_def)
next
  case False
  then have fl: "\<lfloor>- y\<rfloor> = - \<lfloor>y\<rfloor> - 1"
    by (intro floor_unique) (auto simp: less_le, linarith+)
  have r: "0 < y - of_int \<lfloor>y\<rfloor>" "y - of_int \<lfloor>y\<rfloor> < 1"
    using False by (simp_all add: less_le) linarith
  show ?thesis
    using r unfolding round_even_def Let_def fl
    by (auto simp: algebra_simps)
qed

lemma ulp32_minus: "ulp32 (- x) = ulp32 x"
  by (simp add: ulp32_def)

lemma float32_minus: "float32 (- x) = - float32 x"
  by (simp add: float32_def ulp32_minus round_even_minus)

lemma float32_sqrt_eval:
  assumes "(2 powi e)\<^sup>2 \<le> y" and "y < (2 powi (e + 1))\<^sup>2" and "- 126 \<le> e"
    and "0 < n"
    and "((of_int n - 1 / 2) * 2 powi (e - 23))\<^sup>2 < y"
    and "y < ((of_int n + 1 / 2) * 2 powi (e - 23))\<^sup>2"
  shows "float32 (sqrt y) = of_int n * 2 powi (e - 23)"
proof -
  have y0: "0 \<le> y" using assms(1) by (rule order_trans [rotated]) simp
  have u: "0 < (2::real) powi (e - 23)" by simp
  have "2 powi e \<le> sqrt y"
    using assms(1) by (intro real_le_rsqrt)
  moreover have "sqrt y < 2 powi (e + 1)"
    using assms(2) by (intro real_less_lsqrt) simp_all
  moreover have "\<bar>sqrt y\<bar> = sqrt y" using y0 by simp
  ultimately have "float32 (sqrt y) = of_int (round_even (sqrt y / 2 powi (e - 23))) * 2 powi (e - 23)"
    using assms(3) by (intro float32_eval) simp_all
  moreover have "round_even (sqrt y / 2 powi (e - 23)) = n"
  proof (rule round_even_eqI)
    have "(of_int n - 1 / 2) * 2 powi (e - 23) < sqrt y"
      using assms(5) by (intro real_less_rsqrt)
    then show "of_int n - 1 / 2 < sqrt y / 2 powi (e - 23)"
      using u by (simp add: pos_less_divide_eq)
    have "0 \<le> (real_of_int n + 1 / 2) * 2 powi (e - 23)"
      using assms(4) by simp
    then have "sqrt y < (of_int n + 1 / 2) * 2 powi (e - 23)"
      using assms(6) by (intro real_less_lsqrt) simp_all
    then show "sqrt y / 2 powi (e - 23) < of_int n + 1 / 2"
      using u by (simp add: pos_divide_less_eq)
  qed
  ultimately show ?thesis by simp
qed

lemma round_even_of_int: "round_even (of_int m) = m"
  by (simp add: round_even_def Let_def)

lemma float32_exact:
  assumes "2 powi e \<le> \<bar>x\<bar>" and "\<bar>x\<bar> < 2 powi (e + 1)" and "- 126 \<le> e"
    and "x = of_int m * 2 powi (e - 23)"
  shows "float32 x = x"
proof -
  have "x / 2 powi (e - 23) = of_int m"
    using assms(4) by simp
  with float32_eval [OF assms(1-3)] assms(4) show ?thesis
    by (simp add: round_even_of_int)
qed

lemma float32_nat_range:
  assumes "2 ^ j \<le> n" and "n < 2 ^ Suc j" and "j \<le> 23"
  shows "float32 (real n) = real n"
proof (rule float32_exact [where e = "int j" and m = "int (n * 2 ^ (23 - j))"])
  show "2 powi int j \<le> \<bar>real n\<bar>"
    using assms(1) by (simp add: power_int_def)
  have "real n < real (2 ^ Suc j)"
    using assms(2) by (simp only: of_nat_less_iff)
  then show "\<bar>real n\<bar> < 2 powi (int j + 1)"
    by (simp add: power_int_def nat_add_distrib)
  show "- 126 \<le> int j" by simp
  have "real n * 2 ^ (23 - j) * 2 powi (int j - 23) = real n * (2 powi int (23 - j) * 2 powi (int j - 23))"
    by (simp add: power_int_def)
  also have "2 powi int (23 - j) * 2 powi (int j - 23) = (2::real) powi (int (23 - j) + (int j - 23))"
    by (simp add: power_int_add)
  also have "int (23 - j) + (int j - 23) = 0"
    using assms(3) by simp
  finally show "real n = real_of_int (int (n * 2 ^ (23 - j))) * 2 powi (int j - 23)"
    by simp
qed

lemma float32_uint8:
  assumes "x \<in> \<nat>" and "x \<le> 255"
  shows "float32 x = x"
proof -
  from assms obtain n where n: "x = real n" and le: "n \<le> 255"
    by (auto simp: Nats_def)
  show ?thesis
  proof (cases "n = 0")
    case True
    with n show ?thesis by (simp add: float32_def)
  next
    case False
    then have "n \<in> {1..<2} \<or> n \<in> {2..<4} \<or> n \<in> {4..<8} \<or> n \<in> {8..<16} \<or>
        n \<in> {16..<32} \<or> n \<in> {32..<64} \<or> n \<in> {64..<128} \<or> n \<in> {128..<256}"
      using le by auto
    then show ?thesis
      using float32_nat_range [of 0 n] float32_nat_range [of 1 n] float32_nat_range [of 2 n]
        float32_nat_range [of 3 n] float32_nat_range [of 4 n] float32_nat_range [of 5 n]
        float32_nat_range [of 6 n] float32_nat_range [of 7 n]
      unfolding n by auto
  qed
qed

lemma scale255_f32_uint8:
  "is_uint8 v \<Longrightarrow> scale255_f32 v = map (\<lambda>x. f32_div x 255) v"
  by (auto simp: scale255_f32_def is_uint8_def list_all_iff float32_uint8)

subsection \<open>The scan and the distance\<close>

lemma pairwise_sum_short: "length a < 8 \<Longrightarrow> pairwise_sum a = foldl f32_add 0 a"
  by (subst pairwise_sum.simps) (simp add: Let_def)

lemma f32_square_sub_commute: "f32_square (f32_sub a b) = f32_square (f32_sub b a)"
proof -
  have "f32_sub a b = - f32_sub b a"
    using float32_minus [of "b - a"] by (simp add: f32_sub_def)
  then show ?thesis by (simp add: f32_square_def)
qed

lemma map2_square_sub:
  "length r = length v \<Longrightarrow>
   map f32_square (map2 f32_sub r v) = map (\<lambda>i. f32_square (f32_sub (v ! i) (r ! i))) [0..<length v]"
proof (rule nth_equalityI)
  fix i
  assume len: "length r = length v" and "i < length (map f32_square (map2 f32_sub r v))"
  then have i: "i < length v" by simp
  with len have "map f32_square (map2 f32_sub r v) ! i = f32_square (f32_sub (r ! i) (v ! i))"
    by simp
  also have "\<dots> = f32_square (f32_sub (v ! i) (r ! i))"
    by (rule f32_square_sub_commute)
  finally show "map f32_square (map2 f32_sub r v) ! i =
      map (\<lambda>i. f32_square (f32_sub (v ! i) (r ! i))) [0..<length v] ! i"
    using i by simp
qed simp

lemma distances_f32_rows:
  assumes "well_shaped A" and "length q = ncols A" and "is_uint8 q" and "list_all is_uint8 (rows A)"
  shows "distances_f32 q A = Inr (map (distance_f32 q) (rows A))"
proof -
  have eq: "\<And>r. r \<in> set (rows A) \<Longrightarrow>
      f32_sqrt (np_sum (map f32_square (sub_row_f32 (scale255_f32 r) (scale255_f32 q)))) = distance_f32 q r"
  proof -
    fix r assume r: "r \<in> set (rows A)"
    with assms have len: "length r = length q" and u: "is_uint8 r"
      by (simp_all add: well_shaped_def list_all_iff)
    have sr: "scale255_f32 r = map (\<lambda>x. f32_div x 255) r" and sq: "scale255_f32 q = map (\<lambda>x. f32_div x 255) q"
      using u assms(3) by (simp_all add: scale255_f32_uint8)
    have "map f32_square (sub_row_f32 (scale255_f32 r) (scale255_f32 q))
        = map f32_square (map2 f32_sub (scale255_f32 r) (scale255_f32 q))"
      using len by (simp add: sub_row_f32_def sr sq)
    also have "\<dots> = map (\<lambda>i. f32_square (f32_sub (scale255_f32 q ! i) (scale255_f32 r ! i)))
        [0..<length (scale255_f32 q)]"
      using len by (intro map2_square_sub) (simp add: sr sq)
    also have "\<dots> = map (\<lambda>i. f32_square (f32_sub (f32_div (q ! i) 255) (f32_div (r ! i) 255))) [0..<length q]"
      using len by (simp add: sr sq)
    finally show "f32_sqrt (np_sum (map f32_square (sub_row_f32 (scale255_f32 r) (scale255_f32 q)))) = distance_f32 q r"
      by (simp add: distance_f32_def)
  qed
  show ?thesis
    using assms(1,2) eq
    by (simp add: distances_f32_def broadcast_sub_f32_def Let_def scale255_f32_def [of q])
qed

subsection \<open>Values of the operations on sample data\<close>

text \<open>Each fact is one rounded operation on explicit numbers: the exponent of the exact
  result is given, and the rounded significand is computed.\<close>

lemma ev_1: "float32 162 = 162"
  by (subst float32_eval [where e = "7"]) (simp_all add: round_even_def Let_def)

lemma ev_2: "f32_div 162 255 = 10658467 / 16777216"
  unfolding f32_div_def
  by (subst float32_eval [where e = "-1"]) (simp_all add: round_even_def Let_def)

lemma ev_3: "float32 111 = 111"
  by (subst float32_eval [where e = "6"]) (simp_all add: round_even_def Let_def)

lemma ev_4: "f32_div 111 255 = 14606047 / 33554432"
  unfolding f32_div_def
  by (subst float32_eval [where e = "-2"]) (simp_all add: round_even_def Let_def)

lemma ev_5: "f32_sub (14606047 / 33554432) (10658467 / 16777216) = - (6710887 / 33554432)"
  unfolding f32_sub_def
  by (subst float32_eval [where e = "-3"]) (simp_all add: round_even_def Let_def)

lemma ev_6: "f32_square (- (6710887 / 33554432)) = 2684355 / 67108864"
  unfolding f32_square_def
  by (subst float32_eval [where e = "-5"]) (simp_all add: round_even_def Let_def)

lemma ev_7: "f32_add 0 (2684355 / 67108864) = 2684355 / 67108864"
  unfolding f32_add_def
  by (subst float32_eval [where e = "-5"]) (simp_all add: round_even_def Let_def)

lemma ev_8: "f32_sqrt (2684355 / 67108864) = 6710887 / 33554432"
  unfolding f32_sqrt_def
  by (subst float32_sqrt_eval [where e = "-3" and n = 13421774]) (simp_all add: power2_eq_square)

lemma ev_9: "float32 213 = 213"
  by (subst float32_eval [where e = "7"]) (simp_all add: round_even_def Let_def)

lemma ev_10: "f32_div 213 255 = 7006955 / 8388608"
  unfolding f32_div_def
  by (subst float32_eval [where e = "-1"]) (simp_all add: round_even_def Let_def)

lemma ev_11: "f32_sub (7006955 / 8388608) (10658467 / 16777216) = 3355443 / 16777216"
  unfolding f32_sub_def
  by (subst float32_eval [where e = "-3"]) (simp_all add: round_even_def Let_def)

lemma ev_12: "f32_square (3355443 / 16777216) = 10737417 / 268435456"
  unfolding f32_square_def
  by (subst float32_eval [where e = "-5"]) (simp_all add: round_even_def Let_def)

lemma ev_13: "f32_add 0 (10737417 / 268435456) = 10737417 / 268435456"
  unfolding f32_add_def
  by (subst float32_eval [where e = "-5"]) (simp_all add: round_even_def Let_def)

lemma ev_14: "f32_sqrt (10737417 / 268435456) = 3355443 / 16777216"
  unfolding f32_sqrt_def
  by (subst float32_sqrt_eval [where e = "-3" and n = 13421772]) (simp_all add: power2_eq_square)

lemma ev_15: "float32 60 = 60"
  by (subst float32_eval [where e = "5"]) (simp_all add: round_even_def Let_def)

lemma ev_16: "f32_div 60 255 = 15790321 / 67108864"
  unfolding f32_div_def
  by (subst float32_eval [where e = "-3"]) (simp_all add: round_even_def Let_def)

lemma ev_17: "f32_sub (15790321 / 67108864) (14606047 / 33554432) = - (13421773 / 67108864)"
  unfolding f32_sub_def
  by (subst float32_eval [where e = "-3"]) (simp_all add: round_even_def Let_def)

lemma ev_18: "f32_square (- (13421773 / 67108864)) = 10737419 / 268435456"
  unfolding f32_square_def
  by (subst float32_eval [where e = "-5"]) (simp_all add: round_even_def Let_def)

lemma ev_19: "f32_add 0 (10737419 / 268435456) = 10737419 / 268435456"
  unfolding f32_add_def
  by (subst float32_eval [where e = "-5"]) (simp_all add: round_even_def Let_def)

lemma ev_20: "f32_sqrt (10737419 / 268435456) = 13421773 / 67108864"
  unfolding f32_sqrt_def
  by (subst float32_sqrt_eval [where e = "-3" and n = 13421773]) (simp_all add: power2_eq_square)

lemma ev_21: "float32 (3602879701896397 / 18014398509481984) = 13421773 / 67108864"
  by (subst float32_eval [where e = "-3"]) (simp_all add: round_even_def Let_def)

lemma ev_22: "float32 0 = 0"
  by (simp add: float32_def)

lemma ev_23: "f32_div 0 255 = 0"
  by (simp add: f32_div_def float32_def)

lemma ev_24: "f32_sub 0 0 = 0"
  by (simp add: f32_sub_def float32_def)

lemma ev_25: "f32_square 0 = 0"
  by (simp add: f32_square_def float32_def)

lemma ev_26: "f32_add 0 0 = 0"
  by (simp add: f32_add_def float32_def)

lemma ev_27: "f32_sqrt 0 = 0"
  by (simp add: f32_sqrt_def float32_def)

lemma ev_28: "float32 1 = 1"
  by (subst float32_eval [where e = "0"]) (simp_all add: round_even_def Let_def)















lemma ev_43: "float32 255 = 255"
  by (subst float32_eval [where e = "7"]) (simp_all add: round_even_def Let_def)

lemma ev_44: "f32_div 255 255 = 1"
  unfolding f32_div_def
  by (subst float32_eval [where e = "0"]) (simp_all add: round_even_def Let_def)

lemma ev_45: "f32_sub 1 0 = 1"
  unfolding f32_sub_def
  by (subst float32_eval [where e = "0"]) (simp_all add: round_even_def Let_def)

lemma ev_46: "f32_square 1 = 1"
  unfolding f32_square_def
  by (subst float32_eval [where e = "0"]) (simp_all add: round_even_def Let_def)

lemma ev_47: "f32_add 0 1 = 1"
  unfolding f32_add_def
  by (subst float32_eval [where e = "0"]) (simp_all add: round_even_def Let_def)

lemma ev_48: "f32_sqrt 1 = 1"
  unfolding f32_sqrt_def
  by (subst float32_sqrt_eval [where e = "0" and n = 8388608]) (simp_all add: power2_eq_square)


lemma np_sum_1: "np_sum [x] = f32_add 0 (f32_add 0 x)"
  by (simp add: np_sum_def pairwise_sum_short)


lemmas scan_f32_defs = distances_f32_def broadcast_sub_f32_def scale255_f32_def sub_row_f32_def

lemma scan_162:
  "distances_f32 [162] \<lparr>ncols = 1, rows = [[111], [213]]\<rparr> = Inr [6710887 / 33554432, 3355443 / 16777216]"
proof -
  have "distances_f32 [162] \<lparr>ncols = 1, rows = [[111], [213]]\<rparr> =
      Inr [f32_sqrt (np_sum [f32_square (f32_sub (f32_div (float32 111) 255) (f32_div (float32 162) 255))]),
           f32_sqrt (np_sum [f32_square (f32_sub (f32_div (float32 213) 255) (f32_div (float32 162) 255))])]"
    by (simp add: scan_f32_defs)
  then show ?thesis
    by (simp only: np_sum_1 ev_1 ev_2 ev_3 ev_4 ev_5 ev_6 ev_7 ev_8 ev_9 ev_10 ev_11 ev_12 ev_13 ev_14)
qed

lemma scan_111:
  "distances_f32 [111] \<lparr>ncols = 1, rows = [[60]]\<rparr> = Inr [13421773 / 67108864]"
proof -
  have "distances_f32 [111] \<lparr>ncols = 1, rows = [[60]]\<rparr> =
      Inr [f32_sqrt (np_sum [f32_square (f32_sub (f32_div (float32 60) 255) (f32_div (float32 111) 255))])]"
    by (simp add: scan_f32_defs)
  then show ?thesis
    by (simp only: np_sum_1 ev_3 ev_4 ev_15 ev_16 ev_17 ev_18 ev_19 ev_20)
qed


lemma scan_unit:
  "distances_f32 [0] \<lparr>ncols = 1, rows = [[0], [255]]\<rparr> = Inr [0, 1]"
proof -
  have "distances_f32 [0] \<lparr>ncols = 1, rows = [[0], [255]]\<rparr> =
      Inr [f32_sqrt (np_sum [f32_square (f32_sub (f32_div (float32 0) 255) (f32_div (float32 0) 255))]),
           f32_sqrt (np_sum [f32_square (f32_sub (f32_div (float32 255) 255) (f32_div (float32 0) 255))])]"
    by (simp add: scan_f32_defs)
  then show ?thesis
    by (simp only: np_sum_1 ev_22 ev_23 ev_24 ev_25 ev_26 ev_27 ev_43 ev_44 ev_45 ev_46 ev_47 ev_48)
qed

lemma count_f32_filter: "count_f32 ds th = length (filter (\<lambda>d. d \<le> float32 th) ds)"
  by (induction ds) (simp_all add: count_f32_def below_f32_def)

subsection \<open>What rounding does not change\<close>

text \<open>
  Rounding is monotone and keeps the sign, so the two properties proved of the exact scan
  hold of the single-precision scan as well: a larger threshold never gives fewer matches
  (\<open>count_f32_mono\<close>), a pixel has distance 0 to its own vector and is kept at threshold 0
  (\<open>own_vector_f32\<close>), and at a threshold that is at most 0 every pixel kept has distance 0
  (\<open>exact_match_only_f32\<close>).
\<close>

lemma round_even_nonneg: "0 \<le> y \<Longrightarrow> 0 \<le> round_even y"
  by (auto simp: round_even_def Let_def)

lemma ulp32_pos: "0 < ulp32 x"
  by (simp add: ulp32_def)

lemma float32_nonneg: "0 \<le> x \<Longrightarrow> 0 \<le> float32 x"
  using ulp32_pos [of x] by (simp add: float32_def round_even_nonneg less_imp_le)

lemma float32_nonpos: "x \<le> 0 \<Longrightarrow> float32 x \<le> 0"
  using float32_nonneg [of "- x"] by (simp add: float32_minus)

lemma round_even_mono: "x \<le> y \<Longrightarrow> round_even x \<le> round_even y"
proof -
  assume le: "x \<le> y"
  have fl: "\<lfloor>x\<rfloor> \<le> \<lfloor>y\<rfloor>" using le by (rule floor_mono)
  show ?thesis
  proof (cases "\<lfloor>x\<rfloor> = \<lfloor>y\<rfloor>")
    case True
    with le show ?thesis by (auto simp: round_even_def Let_def)
  next
    case False
    with fl have "\<lfloor>x\<rfloor> + 1 \<le> \<lfloor>y\<rfloor>" by simp
    moreover have "round_even x \<le> \<lfloor>x\<rfloor> + 1" by (auto simp: round_even_def Let_def)
    moreover have "\<lfloor>y\<rfloor> \<le> round_even y" by (auto simp: round_even_def Let_def)
    ultimately show ?thesis by linarith
  qed
qed

lemma float32_expo: "x \<noteq> 0 \<Longrightarrow> float32 x = of_int (round_even (x / 2 powi (expo x - 23))) * 2 powi (expo x - 23)"
  by (simp add: float32_def ulp32_def expo_def)

lemma grid_mono:
  "x \<le> y \<Longrightarrow> of_int (round_even (x / 2 powi k)) * 2 powi k \<le> of_int (round_even (y / 2 powi k)) * (2::real) powi k"
proof -
  assume "x \<le> y"
  then have "x / 2 powi k \<le> y / 2 powi k" by (simp add: divide_right_mono)
  then have "round_even (x / 2 powi k) \<le> round_even (y / 2 powi k)" by (rule round_even_mono)
  then show ?thesis by (simp add: mult_right_mono)
qed

lemma grid_fix:
  "k \<le> j \<Longrightarrow> of_int (round_even (2 powi j / 2 powi k)) * 2 powi k = (2::real) powi j"
proof -
  assume kj: "k \<le> j"
  have "(2::real) powi j / 2 powi k = 2 powi (j - k)"
    by (simp add: power_int_diff)
  also have "\<dots> = of_int (2 ^ nat (j - k))"
    using kj by (simp add: power_int_def)
  finally have "round_even (2 powi j / 2 powi k) = 2 ^ nat (j - k)"
    by (simp only: round_even_of_int)
  moreover have "(2::real) powi (j - k) * 2 powi k = 2 powi j"
    by (simp add: power_int_add [symmetric])
  ultimately show ?thesis
    using kj by (simp add: power_int_def [of _ "j - k"])
qed

lemma pos_bounds:
  assumes "0 < x"
  shows "x < 2 powi (expo x + 1)" and "- 126 < expo x \<Longrightarrow> 2 powi expo x \<le> x"
proof -
  have fl: "2 powr of_int \<lfloor>log 2 x\<rfloor> \<le> x \<and> x < 2 powr of_int (\<lfloor>log 2 x\<rfloor> + 1)"
    using assms floor_log_eq_powr_iff [of x 2 "\<lfloor>log 2 x\<rfloor>"] by simp
  have p: "\<And>k. (2::real) powr of_int k = 2 powi k"
    by (rule powr_real_of_int') simp_all
  have "x < 2 powi (\<lfloor>log 2 x\<rfloor> + 1)" using fl p [of "\<lfloor>log 2 x\<rfloor> + 1"] by simp
  also have "\<dots> \<le> 2 powi (expo x + 1)"
    using assms by (intro power_int_increasing) (simp_all add: expo_def)
  finally show "x < 2 powi (expo x + 1)" .
  assume "- 126 < expo x"
  then have "expo x = \<lfloor>log 2 x\<rfloor>" using assms by (simp add: expo_def max_def split: if_splits)
  with fl p show "2 powi expo x \<le> x" by simp
qed

lemma expo_mono: "0 < x \<Longrightarrow> x \<le> y \<Longrightarrow> expo x \<le> expo y"
proof -
  assume "0 < x" "x \<le> y"
  then have "log 2 x \<le> log 2 y" by simp
  then have "\<lfloor>log 2 x\<rfloor> \<le> \<lfloor>log 2 y\<rfloor>" by (rule floor_mono)
  with \<open>0 < x\<close> \<open>x \<le> y\<close> show ?thesis by (simp add: expo_def)
qed

lemma float32_mono_pos:
  assumes "0 < x" and "x \<le> y"
  shows "float32 x \<le> float32 y"
proof (cases "expo x = expo y")
  case True
  with assms show ?thesis
    using grid_mono [of x y "expo y - 23"] by (simp add: float32_expo)
next
  case False
  with expo_mono [OF assms] have lt: "expo x + 1 \<le> expo y" by simp
  then have big: "- 126 < expo y" by (simp add: expo_def)
  from assms have y: "0 < y" by simp
  have "float32 x \<le> of_int (round_even (2 powi (expo x + 1) / 2 powi (expo x - 23))) * 2 powi (expo x - 23)"
    using assms(1) pos_bounds(1) [OF assms(1)] grid_mono [of x "2 powi (expo x + 1)" "expo x - 23"]
    by (simp add: float32_expo)
  also have "\<dots> = 2 powi (expo x + 1)"
    by (rule grid_fix) simp
  also have "\<dots> \<le> 2 powi expo y"
    using lt by (intro power_int_increasing) simp_all
  also have "\<dots> = of_int (round_even (2 powi expo y / 2 powi (expo y - 23))) * 2 powi (expo y - 23)"
    by (rule grid_fix [symmetric]) simp
  also have "\<dots> \<le> float32 y"
    using y pos_bounds(2) [OF y big] grid_mono [of "2 powi expo y" y "expo y - 23"]
    by (simp add: float32_expo)
  finally show ?thesis .
qed

lemma float32_mono: "x \<le> y \<Longrightarrow> float32 x \<le> float32 y"
proof -
  assume le: "x \<le> y"
  consider "0 < x" | "x \<le> 0" "0 \<le> y" | "y < 0" by linarith
  then show ?thesis
  proof cases
    case 1
    then show ?thesis using le by (rule float32_mono_pos)
  next
    case 2
    then have "float32 x \<le> 0" "0 \<le> float32 y"
      by (simp_all add: float32_nonpos float32_nonneg)
    then show ?thesis by simp
  next
    case 3
    with le have "0 < - y" "- y \<le> - x" by simp_all
    then have "float32 (- y) \<le> float32 (- x)" by (rule float32_mono_pos)
    then show ?thesis by (simp add: float32_minus)
  qed
qed

lemma count_f32_mono: "t1 \<le> t2 \<Longrightarrow> count_f32 ds t1 \<le> count_f32 ds t2"
proof -
  assume "t1 \<le> t2"
  then have "float32 t1 \<le> float32 t2" by (rule float32_mono)
  then have "{j. j < length ds \<and> ds ! j \<le> float32 t1} \<subseteq> {j. j < length ds \<and> ds ! j \<le> float32 t2}"
    by auto
  then show ?thesis
    by (simp add: count_f32_filter length_filter_conv_card card_mono)
qed

lemma f32_add_nonneg: "0 \<le> a \<Longrightarrow> 0 \<le> b \<Longrightarrow> 0 \<le> f32_add a b"
  by (simp add: f32_add_def float32_nonneg)

lemma f32_add_zero: "f32_add 0 0 = 0"
  by (simp add: f32_add_def float32_def)

lemma foldl_f32_add_nonneg:
  "0 \<le> r \<Longrightarrow> list_all (\<lambda>x. 0 \<le> x) xs \<Longrightarrow> 0 \<le> foldl f32_add r xs"
  by (induction xs arbitrary: r) (simp_all add: f32_add_nonneg)

lemma foldl_f32_add_zero:
  "list_all (\<lambda>x. x = 0) xs \<Longrightarrow> foldl f32_add 0 xs = 0"
  by (induction xs) (simp_all add: f32_add_zero)

lemma accumulate_nonneg:
  "list_all (\<lambda>x. 0 \<le> x) r \<Longrightarrow> list_all (\<lambda>x. 0 \<le> x) xs \<Longrightarrow> length r = 8 \<Longrightarrow>
   accumulate r xs = (r', rest) \<Longrightarrow>
   list_all (\<lambda>x. 0 \<le> x) r' \<and> list_all (\<lambda>x. 0 \<le> x) rest \<and> length r' = 8"
proof (induction r xs arbitrary: r' rest rule: accumulate.induct)
  case (1 r xs)
  show ?case
  proof (cases "length xs < 8")
    case True
    with "1.prems" show ?thesis by (simp add: accumulate.simps [of r xs])
  next
    case False
    have a: "list_all (\<lambda>x. 0 \<le> x) (map2 f32_add r (take 8 xs))"
      using "1.prems"(1,2) by (simp add: list_all_length f32_add_nonneg)
    have b: "list_all (\<lambda>x. 0 \<le> x) (drop 8 xs)"
      using "1.prems"(2) by (auto simp: list_all_iff dest: in_set_dropD)
    have c: "length (map2 f32_add r (take 8 xs)) = 8"
      using "1.prems"(3) False by simp
    from "1.prems"(4) False have "accumulate (map2 f32_add r (take 8 xs)) (drop 8 xs) = (r', rest)"
      by (simp add: accumulate.simps [of r xs])
    from "1.IH" [OF False a b c this] show ?thesis .
  qed
qed

lemma accumulate_zero:
  "list_all (\<lambda>x. x = 0) r \<Longrightarrow> list_all (\<lambda>x. x = 0) xs \<Longrightarrow> length r = 8 \<Longrightarrow>
   accumulate r xs = (r', rest) \<Longrightarrow>
   list_all (\<lambda>x. x = 0) r' \<and> list_all (\<lambda>x. x = 0) rest \<and> length r' = 8"
proof (induction r xs arbitrary: r' rest rule: accumulate.induct)
  case (1 r xs)
  show ?case
  proof (cases "length xs < 8")
    case True
    with "1.prems" show ?thesis by (simp add: accumulate.simps [of r xs])
  next
    case False
    have a: "list_all (\<lambda>x. x = 0) (map2 f32_add r (take 8 xs))"
      using "1.prems"(1,2) by (simp add: list_all_length f32_add_zero)
    have b: "list_all (\<lambda>x. x = 0) (drop 8 xs)"
      using "1.prems"(2) by (auto simp: list_all_iff dest: in_set_dropD)
    have c: "length (map2 f32_add r (take 8 xs)) = 8"
      using "1.prems"(3) False by simp
    from "1.prems"(4) False have "accumulate (map2 f32_add r (take 8 xs)) (drop 8 xs) = (r', rest)"
      by (simp add: accumulate.simps [of r xs])
    from "1.IH" [OF False a b c this] show ?thesis .
  qed
qed

lemma pairwise_sum_nonneg:
  "list_all (\<lambda>x. 0 \<le> x) a \<Longrightarrow> 0 \<le> pairwise_sum a"
proof (induction a rule: pairwise_sum.induct)
  case (1 a)
  consider "length a < 8" | "8 \<le> length a" "length a \<le> 128" | "128 < length a" by linarith
  then show ?case
  proof cases
    case 1
    with "1.prems" show ?thesis
      by (simp add: pairwise_sum_short foldl_f32_add_nonneg)
  next
    case 2
    obtain r rest where acc: "accumulate (take 8 a) (drop 8 a) = (r, rest)"
      by (cases "accumulate (take 8 a) (drop 8 a)")
    have "list_all (\<lambda>x. 0 \<le> x) (take 8 a)" "list_all (\<lambda>x. 0 \<le> x) (drop 8 a)"
      using "1.prems" by (auto simp: list_all_iff dest: in_set_takeD in_set_dropD)
    moreover have "length (take 8 a) = 8" using 2 by simp
    ultimately have r: "list_all (\<lambda>x. 0 \<le> x) r" "list_all (\<lambda>x. 0 \<le> x) rest" "length r = 8"
      using accumulate_nonneg [OF _ _ _ acc] by simp_all
    then have "\<And>i. i < 8 \<Longrightarrow> 0 \<le> r ! i" by (simp add: list_all_length)
    then have "0 \<le> f32_add (f32_add (f32_add (r ! 0) (r ! 1)) (f32_add (r ! 2) (r ! 3)))
                              (f32_add (f32_add (r ! 4) (r ! 5)) (f32_add (r ! 6) (r ! 7)))"
      by (intro f32_add_nonneg) simp_all
    with r(2) 2 acc show ?thesis
      by (subst pairwise_sum.simps) (simp add: Let_def foldl_f32_add_nonneg)
  next
    case 3
    let ?n2 = "length a div 2 - length a div 2 mod 8"
    have "list_all (\<lambda>x. 0 \<le> x) (take ?n2 a)" "list_all (\<lambda>x. 0 \<le> x) (drop ?n2 a)"
      using "1.prems" by (auto simp: list_all_iff dest: in_set_takeD in_set_dropD)
    with 3 "1.IH" have "0 \<le> pairwise_sum (take ?n2 a)" "0 \<le> pairwise_sum (drop ?n2 a)"
      by simp_all
    with 3 show ?thesis
      by (subst pairwise_sum.simps) (simp add: Let_def f32_add_nonneg)
  qed
qed

lemma pairwise_sum_zero:
  "list_all (\<lambda>x. x = 0) a \<Longrightarrow> pairwise_sum a = 0"
proof (induction a rule: pairwise_sum.induct)
  case (1 a)
  consider "length a < 8" | "8 \<le> length a" "length a \<le> 128" | "128 < length a" by linarith
  then show ?case
  proof cases
    case 1
    with "1.prems" show ?thesis
      by (simp add: pairwise_sum_short foldl_f32_add_zero)
  next
    case 2
    obtain r rest where acc: "accumulate (take 8 a) (drop 8 a) = (r, rest)"
      by (cases "accumulate (take 8 a) (drop 8 a)")
    have "list_all (\<lambda>x. x = 0) (take 8 a)" "list_all (\<lambda>x. x = 0) (drop 8 a)"
      using "1.prems" by (auto simp: list_all_iff dest: in_set_takeD in_set_dropD)
    moreover have "length (take 8 a) = 8" using 2 by simp
    ultimately have r: "list_all (\<lambda>x. x = 0) r" "list_all (\<lambda>x. x = 0) rest" "length r = 8"
      using accumulate_zero [OF _ _ _ acc] by simp_all
    then have "\<And>i. i < 8 \<Longrightarrow> r ! i = 0" by (simp add: list_all_length)
    then have "f32_add (f32_add (f32_add (r ! 0) (r ! 1)) (f32_add (r ! 2) (r ! 3)))
                       (f32_add (f32_add (r ! 4) (r ! 5)) (f32_add (r ! 6) (r ! 7))) = 0"
      by (simp add: f32_add_zero)
    with r(2) 2 acc show ?thesis
      by (subst pairwise_sum.simps) (simp add: Let_def foldl_f32_add_zero)
  next
    case 3
    let ?n2 = "length a div 2 - length a div 2 mod 8"
    have "list_all (\<lambda>x. x = 0) (take ?n2 a)" "list_all (\<lambda>x. x = 0) (drop ?n2 a)"
      using "1.prems" by (auto simp: list_all_iff dest: in_set_takeD in_set_dropD)
    with 3 "1.IH" have "pairwise_sum (take ?n2 a) = 0" "pairwise_sum (drop ?n2 a) = 0"
      by simp_all
    with 3 show ?thesis
      by (subst pairwise_sum.simps) (simp add: Let_def f32_add_zero)
  qed
qed

lemma distance_f32_self: "distance_f32 r r = 0"
proof -
  have "list_all (\<lambda>x. x = 0)
      (map (\<lambda>i. f32_square (f32_sub (f32_div (r ! i) 255) (f32_div (r ! i) 255))) [0..<length r])"
    by (simp add: list_all_iff f32_sub_def f32_square_def float32_def)
  then have "pairwise_sum
      (map (\<lambda>i. f32_square (f32_sub (f32_div (r ! i) 255) (f32_div (r ! i) 255))) [0..<length r]) = 0"
    by (rule pairwise_sum_zero)
  then show ?thesis
    by (simp add: distance_f32_def np_sum_def f32_add_zero f32_sqrt_def float32_def)
qed

lemma distance_f32_nonneg: "0 \<le> distance_f32 q r"
proof -
  have "list_all (\<lambda>x. 0 \<le> x)
      (map (\<lambda>i. f32_square (f32_sub (f32_div (q ! i) 255) (f32_div (r ! i) 255))) [0..<length q])"
    by (simp add: list_all_iff f32_square_def float32_nonneg)
  then have "0 \<le> pairwise_sum
      (map (\<lambda>i. f32_square (f32_sub (f32_div (q ! i) 255) (f32_div (r ! i) 255))) [0..<length q])"
    by (rule pairwise_sum_nonneg)
  then show ?thesis
    by (simp add: distance_f32_def np_sum_def f32_add_nonneg f32_sqrt_def float32_nonneg)
qed

lemma own_vector_f32:
  assumes "well_shaped A" and "P < length (rows A)" and "list_all is_uint8 (rows A)"
  shows "\<exists>ds. distances_f32 (rows A ! P) A = Inr ds \<and> ds ! P = 0 \<and> below_f32 ds 0 ! P"
proof -
  from assms have len: "length (rows A ! P) = ncols A" and u: "is_uint8 (rows A ! P)"
    by (simp_all add: well_shaped_def list_all_length)
  from distances_f32_rows [OF assms(1) len u assms(3)] assms(2) show ?thesis
    by (simp add: below_f32_def distance_f32_self float32_def)
qed

lemma exact_match_only_f32:
  assumes "well_shaped A" and "length q = ncols A" and "is_uint8 q" and "list_all is_uint8 (rows A)"
    and "distances_f32 q A = Inr ds" and "t \<le> 0" and "k < length ds" and "below_f32 ds t ! k"
  shows "ds ! k = 0"
proof -
  from distances_f32_rows [OF assms(1-4)] assms(5) have ds: "ds = map (distance_f32 q) (rows A)"
    by simp
  with assms(7) have "0 \<le> ds ! k" by (simp add: distance_f32_nonneg)
  moreover from assms(7,8) have "ds ! k \<le> float32 t" by (simp add: below_f32_def)
  moreover from assms(6) have "float32 t \<le> 0" by (rule float32_nonpos)
  ultimately show ?thesis by simp
qed

subsection \<open>The distance\<close>

text \<open>
  C1, as stated: the distance of a pixel equals the Euclidean distance of the two vectors
  divided by 255. It fails on the values numpy computes: for the 8-bit query \<open>[162]\<close> and
  the stored vector \<open>[111]\<close> the Euclidean distance is \<open>51/255 = 1/5\<close>, and the scan gives
  \<open>6710887 / 2^25\<close>, about 0.20000001788.
\<close>

theorem exact_distance_counterexample:
  "is_uint8 [162] \<and> is_uint8 [111] \<and>
   distances_f32 [162] \<lparr>ncols = 1, rows = [[111], [213]]\<rparr> = Inr [6710887 / 33554432, 3355443 / 16777216] \<and>
   spec_distance [162] [111] = 1 / 5 \<and> (6710887 / 33554432 :: real) \<noteq> 1 / 5"
  using scan_162 by (simp add: is_uint8_def spec_distance_def euclidean_def scale255_def)

text \<open>
  C1, amended. For a query and a stored array of the same dimensionality over the 8-bit
  domain, the distance the scan computes for pixel \<open>k\<close> is
  \<open>sqrt(\<Sum> (query[i] - stored[i])\<^sup>2)\<close> evaluated in single precision on the components
  divided by 255: each quotient, each difference, each square, each partial sum of numpy's
  summation and the square root is rounded to the nearest single-precision number.
\<close>

theorem distances_f32_formula:
  assumes "well_shaped A" and "length q = ncols A" and "k < length (rows A)"
    and "is_uint8 q" and "list_all is_uint8 (rows A)"
  shows "\<exists>ds. distances_f32 q A = Inr ds \<and> length ds = length (rows A) \<and>
           ds ! k = f32_sqrt (np_sum (map (\<lambda>i. f32_square
             (f32_sub (f32_div (q ! i) 255) (f32_div (rows A ! k ! i) 255))) [0..<ncols A]))"
  using assms distances_f32_rows [OF assms(1,2,4,5)]
  by (simp add: distance_f32_def)

theorem distances_f32_formula_witness:
  "well_shaped \<lparr>ncols = 1, rows = [[111], [213]]\<rparr> \<and>
   length [162 :: real] = ncols \<lparr>ncols = 1, rows = [[111], [213]]\<rparr> \<and>
   (0::nat) < length (rows \<lparr>ncols = 1, rows = [[111], [213]]\<rparr>) \<and>
   is_uint8 [162] \<and> list_all is_uint8 (rows \<lparr>ncols = 1, rows = [[111], [213]]\<rparr>) \<and>
   (\<exists>ds. distances_f32 [162] \<lparr>ncols = 1, rows = [[111], [213]]\<rparr> = Inr ds \<and> length ds = 2 \<and>
      ds ! 0 = 6710887 / 33554432)"
  using distances_f32_formula [of "\<lparr>ncols = 1, rows = [[111], [213]]\<rparr>" "[162]" 0] scan_162
  by (simp add: well_shaped_def is_uint8_def)

subsection \<open>The threshold\<close>

text \<open>
  C2, as stated: the pixels kept are exactly those whose distance to the query is at most
  \<open>t\<close>. It fails at the threshold 0.2 of the script (as a Python float, a little above
  \<open>1/5\<close>). For the query \<open>[162]\<close> the stored vectors \<open>[111]\<close> and \<open>[213]\<close> both lie at the
  Euclidean distance \<open>1/5\<close>, below the threshold, and the scan drops the first and keeps the
  second. Nor are the kept pixels those whose computed distance is at most \<open>t\<close>: for the
  query \<open>[111]\<close> the stored vector \<open>[60]\<close> has a computed distance above the threshold
  and is kept, because the threshold is rounded up to that very number.
\<close>

theorem threshold_counterexample:
  "distances_f32 [162] \<lparr>ncols = 1, rows = [[111], [213]]\<rparr> = Inr [6710887 / 33554432, 3355443 / 16777216] \<and>
   spec_distance [162] [111] = 1 / 5 \<and> spec_distance [162] [213] = 1 / 5 \<and>
   (1 / 5 :: real) \<le> 3602879701896397 / 18014398509481984 \<and>
   below_f32 [6710887 / 33554432, 3355443 / 16777216] (3602879701896397 / 18014398509481984) = [False, True] \<and>
   distances_f32 [111] \<lparr>ncols = 1, rows = [[60]]\<rparr> = Inr [13421773 / 67108864] \<and>
   (3602879701896397 / 18014398509481984 :: real) < 13421773 / 67108864 \<and>
   below_f32 [13421773 / 67108864] (3602879701896397 / 18014398509481984) = [True]"
  using scan_162 scan_111
  by (simp add: below_f32_def ev_21 spec_distance_def euclidean_def scale255_def)

text \<open>
  C2, amended. For a query and a stored array of the same dimensionality over the 8-bit
  domain, and every threshold \<open>t\<close>, the pixels the scan keeps are exactly those whose
  distance, evaluated in single precision, is at most the threshold converted to single
  precision; a pixel whose distance equals the converted threshold is kept, and the count is
  the number of those pixels.
\<close>

theorem below_f32_exact:
  assumes "well_shaped A" and "length q = ncols A" and "k < length (rows A)"
    and "is_uint8 q" and "list_all is_uint8 (rows A)"
  shows "\<exists>ds. distances_f32 q A = Inr ds \<and>
           (below_f32 ds t ! k \<longleftrightarrow> distance_f32 q (rows A ! k) \<le> float32 t) \<and>
           (distance_f32 q (rows A ! k) = float32 t \<longrightarrow> below_f32 ds t ! k) \<and>
           count_f32 ds t = card {j. j < length (rows A) \<and> distance_f32 q (rows A ! j) \<le> float32 t}"
proof -
  have ds: "distances_f32 q A = Inr (map (distance_f32 q) (rows A))"
    using assms by (simp add: distances_f32_rows)
  have "count_f32 (map (distance_f32 q) (rows A)) t =
      card {j. j < length (rows A) \<and> distance_f32 q (rows A ! j) \<le> float32 t}"
  proof -
    have "{j. j < length (map (distance_f32 q) (rows A)) \<and> map (distance_f32 q) (rows A) ! j \<le> float32 t}
        = {j. j < length (rows A) \<and> distance_f32 q (rows A ! j) \<le> float32 t}"
      by auto
    then show ?thesis
      by (simp add: count_f32_filter length_filter_conv_card)
  qed
  with ds assms(3) show ?thesis
    by (simp add: below_f32_def)
qed

theorem below_f32_exact_witness:
  "well_shaped \<lparr>ncols = 1, rows = [[0], [255]]\<rparr> \<and>
   length [0 :: real] = ncols \<lparr>ncols = 1, rows = [[0], [255]]\<rparr> \<and>
   (1::nat) < length (rows \<lparr>ncols = 1, rows = [[0], [255]]\<rparr>) \<and>
   is_uint8 [0] \<and> list_all is_uint8 (rows \<lparr>ncols = 1, rows = [[0], [255]]\<rparr>) \<and>
   distances_f32 [0] \<lparr>ncols = 1, rows = [[0], [255]]\<rparr> = Inr [0, 1] \<and>
   float32 1 = 1 \<and> below_f32 [0, 1] 1 ! 1"
  using below_f32_exact [of "\<lparr>ncols = 1, rows = [[0], [255]]\<rparr>" "[0]" 1 1] scan_unit
  by (simp add: well_shaped_def is_uint8_def below_f32_def ev_28)

subsection \<open>Scenario A\<close>



section \<open>Properties of the migration\<close>

subsection \<open>One record\<close>

lemma parse_label_Inr:
  assumes "parse_label label = Inr (n, pxs)"
  obtains items ps where "label = JObj items" and "map_of items ''pixels'' = Some (JArr ps)"
  using assms
  by (auto simp: parse_label_def split: json.splits option.splits)

lemma import_label_saved:
  assumes "parse_label label = Inr (n, pxs)"
  shows "\<exists>k. import_label v label (m, vp) =
           Inr (m\<lparr>db := (db m)\<lparr>stored := stored (db m) @ [\<lparr>sl_viewport = v, sl_name = n, sl_pixels = pxs\<rparr>]\<rparr>,
                   total_labels := total_labels m + 1\<rparr>, vp + k)"
proof -
  from assms obtain items ps where "label = JObj items" and "map_of items ''pixels'' = Some (JArr ps)"
    by (rule parse_label_Inr)
  with assms show ?thesis
    by (simp add: import_label_def save_label_def dict_get_def py_len_def Let_def)
qed

lemma import_label_failed_object:
  assumes "parse_label (JObj items) = Inl e"
  shows "import_label v (JObj items) (m, vp) =
           Inr (m\<lparr>errors := errors m @
             [LabelError v (case map_of items ''name'' of None \<Rightarrow> JStr ''unknown'' | Some x \<Rightarrow> x) e]\<rparr>, vp)"
  using assms by (simp add: import_label_def save_label_def dict_get_def Let_def)

lemma import_label_non_object:
  assumes "\<And>items. label \<noteq> JObj items"
  shows "import_label v label (m, vp) = Inl (AttributeError, m)"
proof (cases label)
  case (JObj items)
  with assms show ?thesis by blast
qed (simp_all add: import_label_def save_label_def parse_label_def dict_get_def Let_def)

subsection \<open>One file and the whole run\<close>

lemma import_labels_rows:
  assumes "import_labels v ls (m, vp) = Inl (e, m') \<or> import_labels v ls (m, vp) = Inr (m', vp')"
  shows "db m' = (db m)\<lparr>stored := stored (db m) @ new_rows v ls\<rparr> \<and>
         total_labels m' = total_labels m + length (new_rows v ls)"
  using assms
proof (induction ls arbitrary: m vp)
  case Nil
  then show ?case by simp
next
  case (Cons l ls)
  show ?case
  proof (cases "parse_label l")
    case (Inr np)
    obtain n pxs where np: "np = (n, pxs)" by (cases np)
    from import_label_saved [of l n pxs v m vp] Inr np
    obtain k where step: "import_label v l (m, vp) =
        Inr (m\<lparr>db := (db m)\<lparr>stored := stored (db m) @ [\<lparr>sl_viewport = v, sl_name = n, sl_pixels = pxs\<rparr>]\<rparr>,
                total_labels := total_labels m + 1\<rparr>, vp + k)"
      by auto
    from Cons.prems step have
      "import_labels v ls (m\<lparr>db := (db m)\<lparr>stored := stored (db m) @ [\<lparr>sl_viewport = v, sl_name = n, sl_pixels = pxs\<rparr>]\<rparr>,
                total_labels := total_labels m + 1\<rparr>, vp + k) = Inl (e, m') \<or>
       import_labels v ls (m\<lparr>db := (db m)\<lparr>stored := stored (db m) @ [\<lparr>sl_viewport = v, sl_name = n, sl_pixels = pxs\<rparr>]\<rparr>,
                total_labels := total_labels m + 1\<rparr>, vp + k) = Inr (m', vp')"
      by simp
    from Cons.IH [OF this] Inr np show ?thesis by simp
  next
    case (Inl err)
    show ?thesis
    proof (cases "\<exists>items. l = JObj items")
      case True
      then obtain items where l: "l = JObj items" by blast
      from import_label_failed_object [of items err v m vp] Inl l Cons.prems
      have "import_labels v ls (m\<lparr>errors := errors m @
             [LabelError v (case map_of items ''name'' of None \<Rightarrow> JStr ''unknown'' | Some x \<Rightarrow> x) err]\<rparr>, vp) = Inl (e, m') \<or>
            import_labels v ls (m\<lparr>errors := errors m @
             [LabelError v (case map_of items ''name'' of None \<Rightarrow> JStr ''unknown'' | Some x \<Rightarrow> x) err]\<rparr>, vp) = Inr (m', vp')"
        by simp
      from Cons.IH [OF this] Inl l show ?thesis by simp
    next
      case False
      then have no: "\<And>items. l \<noteq> JObj items" by blast
      from import_label_non_object [OF no, of v m vp] Cons.prems have "m' = m" by simp
      moreover from False Inl have "new_rows v (l # ls) = []"
        by (cases l) auto
      ultimately show ?thesis by simp
    qed
  qed
qed

lemma new_rows_viewport: "r \<in> set (new_rows v ls) \<Longrightarrow> sl_viewport r = v"
  by (induction ls) (auto split: sum.splits json.splits)

lemma file_rows_viewport: "r \<in> set (file_rows f) \<Longrightarrow> sl_viewport r = viewport_name f"
  by (auto simp: file_rows_def new_rows_viewport split: sum.splits)

lemma import_file_rows:
  assumes "import_file f m = Inl (e, m') \<or> import_file f m = Inr m'"
  shows "db m' = (db m)\<lparr>stored := stored (db m) @ file_rows f\<rparr> \<and>
         total_labels m' = total_labels m + length (file_rows f)"
proof (cases "content f")
  case (Inl err)
  with assms show ?thesis by (simp add: import_file_def file_rows_def)
next
  case data: (Inr data)
  show ?thesis
  proof (cases "dict_get data ''labels'' (JArr [])")
    case (Inl err)
    with assms data show ?thesis by (simp add: import_file_def file_rows_def)
  next
    case labels: (Inr labels)
    show ?thesis
    proof (cases "py_iter labels")
      case (Inl err)
      with assms data labels show ?thesis by (simp add: import_file_def file_rows_def)
    next
      case ls: (Inr ls)
      show ?thesis
      proof (cases "import_labels (viewport_name f) ls (m, 0)")
        case (Inl x)
        obtain e1 m1 where x: "x = (e1, m1)" by (cases x)
        with Inl assms data labels ls have "m' = m1"
          by (simp add: import_file_def)
        with import_labels_rows [of "viewport_name f" ls m 0 e1 m1] Inl x data labels ls
        show ?thesis by (simp add: file_rows_def)
      next
        case (Inr y)
        obtain m1 vp1 where y: "y = (m1, vp1)" by (cases y)
        with Inr assms data labels ls have "m' = m1\<lparr>total_pixels := total_pixels m1 + vp1\<rparr>"
          by (simp add: import_file_def)
        with import_labels_rows [of "viewport_name f" ls m 0 _ m1 vp1] Inr y data labels ls
        show ?thesis by (simp add: file_rows_def)
      qed
    qed
  qed
qed

lemma migrate_file_rows:
  "db (migrate_file m f) =
     (if 0 < get_label_count (db m) (viewport_name f) then db m
      else (db m)\<lparr>stored := stored (db m) @ file_rows f\<rparr>) \<and>
   total_labels (migrate_file m f) =
     (if 0 < get_label_count (db m) (viewport_name f) then total_labels m
      else total_labels m + length (file_rows f))"
proof (cases "0 < get_label_count (db m) (viewport_name f)")
  case True
  then show ?thesis by (simp add: migrate_file_def)
next
  case False
  show ?thesis
  proof (cases "import_file f m")
    case (Inl x)
    obtain e1 m1 where x: "x = (e1, m1)" by (cases x)
    with import_file_rows [of f m e1 m1] Inl False show ?thesis
      by (simp add: migrate_file_def)
  next
    case (Inr m1)
    with import_file_rows [of f m _ m1] False show ?thesis
      by (simp add: migrate_file_def)
  qed
qed

lemma migrate_file_settled: "settled (db (migrate_file m f)) f"
proof (cases "file_rows f")
  case Nil
  then show ?thesis by (simp add: settled_def)
next
  case (Cons r rs)
  then have "r \<in> set (file_rows f)" by simp
  then have "sl_viewport r = viewport_name f" by (rule file_rows_viewport)
  with Cons show ?thesis
    by (simp add: settled_def migrate_file_rows get_label_count_def)
qed

lemma migrate_file_keeps_settled:
  "settled (db m) g \<Longrightarrow> settled (db (migrate_file m f)) g"
  by (auto simp: settled_def migrate_file_rows get_label_count_def)

lemma foldl_keeps_settled:
  "settled (db m) g \<Longrightarrow> settled (db (foldl migrate_file m fs)) g"
  by (induction fs arbitrary: m) (simp_all add: migrate_file_keeps_settled)

lemma foldl_settles_all:
  "list_all (settled (db (foldl migrate_file m fs))) fs"
  by (induction fs arbitrary: m) (simp_all add: foldl_keeps_settled migrate_file_settled)

lemma migrate_file_noop:
  "settled (db m) f \<Longrightarrow>
   db (migrate_file m f) = db m \<and> total_labels (migrate_file m f) = total_labels m"
  by (auto simp: settled_def migrate_file_rows)

lemma foldl_noop:
  "list_all (settled (db m)) fs \<Longrightarrow>
   db (foldl migrate_file m fs) = db m \<and> total_labels (foldl migrate_file m fs) = total_labels m"
proof (induction fs arbitrary: m)
  case Nil
  then show ?case by simp
next
  case (Cons f fs)
  then have f: "settled (db m) f" and rest: "list_all (settled (db m)) fs" by simp_all
  from migrate_file_noop [OF f] rest Cons.IH [of "migrate_file m f"] show ?case by simp
qed

lemma migrate_file_available: "available (db (migrate_file m f)) = available (db m)"
  by (simp add: migrate_file_rows)

lemma foldl_available: "available (db (foldl migrate_file m fs)) = available (db m)"
  by (induction fs arbitrary: m) (simp_all add: migrate_file_available)

lemma migrate_aborts_iff: "migrate d json_files = Inl e \<longleftrightarrow> init_db d = Inl e"
  by (auto simp: migrate_def Let_def split: sum.splits)


lemma import_labels_objects:
  assumes "list_all is_object ls"
  shows "\<exists>m' vp'. import_labels v ls (m, vp) = Inr (m', vp') \<and>
           total_labels m' = total_labels m + length (filter (\<lambda>l. \<not> isl (parse_label l)) ls) \<and>
           length (errors m') = length (errors m) + length (filter (\<lambda>l. isl (parse_label l)) ls)"
  using assms
proof (induction ls arbitrary: m vp)
  case Nil
  then show ?case by simp
next
  case (Cons l ls)
  then obtain items where l: "l = JObj items"
    by (cases l) (simp_all add: is_object_def)
  from Cons.prems have rest: "list_all is_object ls" by simp
  show ?case
  proof (cases "parse_label l")
    case (Inl err)
    with import_label_failed_object [of items err v m vp] l
    have step: "import_label v l (m, vp) = Inr (m\<lparr>errors := errors m @
        [LabelError v (case map_of items ''name'' of None \<Rightarrow> JStr ''unknown'' | Some x \<Rightarrow> x) err]\<rparr>, vp)"
      by simp
    from Cons.IH [OF rest, of "m\<lparr>errors := errors m @
        [LabelError v (case map_of items ''name'' of None \<Rightarrow> JStr ''unknown'' | Some x \<Rightarrow> x) err]\<rparr>" vp]
      step Inl
    show ?thesis by auto
  next
    case (Inr np)
    obtain n pxs where np: "np = (n, pxs)" by (cases np)
    from import_label_saved [of l n pxs v m vp] Inr np
    obtain k where step: "import_label v l (m, vp) =
        Inr (m\<lparr>db := (db m)\<lparr>stored := stored (db m) @ [\<lparr>sl_viewport = v, sl_name = n, sl_pixels = pxs\<rparr>]\<rparr>,
                total_labels := total_labels m + 1\<rparr>, vp + k)"
      by auto
    from Cons.IH [OF rest, of "m\<lparr>db := (db m)\<lparr>stored := stored (db m) @ [\<lparr>sl_viewport = v, sl_name = n, sl_pixels = pxs\<rparr>]\<rparr>,
                total_labels := total_labels m + 1\<rparr>" "vp + k"] step Inr
    show ?thesis by auto
  qed
qed

lemmas eval_defs = migrate_def init_db_def migrate_file_def get_label_count_def import_file_def
  dict_get_def py_iter_def py_len_def import_label_def save_label_def parse_label_def as_pixel_def
  Let_def empty_db_def labels_file_def tree_label_def road_label_def no_pixels_label_def


text \<open>
  Scenario D: a file with two valid labels and one without its pixel list. The two are
  stored, the third is one entry of \<open>errors\<close>, the run completes.
\<close>

lemma scenario_D:
  "migrate empty_db [labels_file ''vp'' [tree_label, no_pixels_label, road_label]] =
     Inr \<lparr>db = \<lparr>available = True, stored =
             [\<lparr>sl_viewport = ''vp'', sl_name = ''tree'', sl_pixels = [(1, 2)]\<rparr>,
              \<lparr>sl_viewport = ''vp'', sl_name = ''road'', sl_pixels = [(3, 4), (5, 6)]\<rparr>]\<rparr>,
          total_labels = 2, total_pixels = 3,
          errors = [LabelError ''vp'' (JStr ''water'') (KeyError ''pixels'')]\<rparr>"
  by (simp add: eval_defs)

subsection \<open>A second run\<close>

text \<open>
  C3. A second run of the migration over the same files leaves the store as the first run
  left it, and saves no label: the labels and pixels of every viewport are unchanged. A
  file whose viewport has a label count above 0 is skipped, its round of the loop changes
  nothing.
\<close>

theorem migrate_idempotent:
  "(migrate d json_files = Inr m1 \<longrightarrow>
      (\<exists>m2. migrate (db m1) json_files = Inr m2 \<and> db m2 = db m1 \<and> total_labels m2 = 0)) \<and>
   (0 < get_label_count (db m) (viewport_name f) \<longrightarrow> migrate_file m f = m)"
proof (intro conjI impI)
  assume run1: "migrate d json_files = Inr m1"
  then have av: "available d"
    by (simp add: migrate_def init_db_def split: if_splits)
  let ?m0 = "\<lparr>db = d, total_labels = 0, total_pixels = 0, errors = []\<rparr>"
  let ?n0 = "\<lparr>db = db m1, total_labels = 0, total_pixels = 0, errors = []\<rparr>"
  from run1 av have m1: "m1 = (if json_files = [] then ?m0 else foldl migrate_file ?m0 json_files)"
    by (auto simp: migrate_def init_db_def Let_def split: if_splits)
  then have m1': "m1 = foldl migrate_file ?m0 json_files"
    by (cases json_files) simp_all
  from m1' av have av1: "available (db m1)"
    by (simp add: foldl_available)
  have "list_all (settled (db m1)) json_files"
    unfolding m1' by (rule foldl_settles_all)
  then have "list_all (settled (db ?n0)) json_files" by simp
  from foldl_noop [OF this]
  have "db (foldl migrate_file ?n0 json_files) = db m1 \<and>
        total_labels (foldl migrate_file ?n0 json_files) = 0"
    by simp
  with av1 show "\<exists>m2. migrate (db m1) json_files = Inr m2 \<and> db m2 = db m1 \<and> total_labels m2 = 0"
    by (simp add: migrate_def init_db_def Let_def)
next
  assume "0 < get_label_count (db m) (viewport_name f)"
  then show "migrate_file m f = m" by (simp add: migrate_file_def)
qed

theorem migrate_idempotent_witness:
  "migrate empty_db [labels_file ''vp'' [tree_label]] =
     Inr \<lparr>db = \<lparr>available = True, stored = [\<lparr>sl_viewport = ''vp'', sl_name = ''tree'', sl_pixels = [(1, 2)]\<rparr>]\<rparr>,
          total_labels = 1, total_pixels = 1, errors = []\<rparr> \<and>
   migrate \<lparr>available = True, stored = [\<lparr>sl_viewport = ''vp'', sl_name = ''tree'', sl_pixels = [(1, 2)]\<rparr>]\<rparr>
       [labels_file ''vp'' [tree_label]] =
     Inr \<lparr>db = \<lparr>available = True, stored = [\<lparr>sl_viewport = ''vp'', sl_name = ''tree'', sl_pixels = [(1, 2)]\<rparr>]\<rparr>,
          total_labels = 0, total_pixels = 0, errors = []\<rparr> \<and>
   0 < get_label_count \<lparr>available = True, stored = [\<lparr>sl_viewport = ''vp'', sl_name = ''tree'', sl_pixels = [(1, 2)]\<rparr>]\<rparr> ''vp'' \<and>
   migrate_file
     \<lparr>db = \<lparr>available = True, stored = [\<lparr>sl_viewport = ''vp'', sl_name = ''tree'', sl_pixels = [(1, 2)]\<rparr>]\<rparr>,
      total_labels = 0, total_pixels = 0, errors = []\<rparr>
     (labels_file ''vp'' [tree_label]) =
     \<lparr>db = \<lparr>available = True, stored = [\<lparr>sl_viewport = ''vp'', sl_name = ''tree'', sl_pixels = [(1, 2)]\<rparr>]\<rparr>,
      total_labels = 0, total_pixels = 0, errors = []\<rparr>"
  using migrate_idempotent [of empty_db "[labels_file ''vp'' [tree_label]]"
      "\<lparr>db = \<lparr>available = True, stored = [\<lparr>sl_viewport = ''vp'', sl_name = ''tree'', sl_pixels = [(1, 2)]\<rparr>]\<rparr>,
          total_labels = 1, total_pixels = 1, errors = []\<rparr>"
      "\<lparr>db = \<lparr>available = True, stored = [\<lparr>sl_viewport = ''vp'', sl_name = ''tree'', sl_pixels = [(1, 2)]\<rparr>]\<rparr>,
          total_labels = 0, total_pixels = 0, errors = []\<rparr>"
      "labels_file ''vp'' [tree_label]"]
  by (simp add: eval_defs)

subsection \<open>A record that is not an object\<close>

text \<open>
  C4. The claim: a record that cannot be saved is one entry of \<open>errors\<close>, and the run goes
  on with the remaining records and files. For records that are JSON objects the loop does
  so (\<open>import_labels_objects\<close>, and scenario D above). For a record that is not an object
  the handler's own \<open>label.get\<close> raises (\<open>import_label_non_object\<close>), the exception
  leaves the inner loop, and the rest of the file is never read. Here the first file holds
  \<open>null\<close> and then a valid label: the valid label is not stored, the file is one entry of
  \<open>errors\<close>, and the run goes on with the second file.
\<close>

theorem non_object_record_ends_file:
  "migrate empty_db [labels_file ''vp'' [JNull, tree_label], labels_file ''vq'' [road_label]] =
     Inr \<lparr>db = \<lparr>available = True, stored =
             [\<lparr>sl_viewport = ''vq'', sl_name = ''road'', sl_pixels = [(3, 4), (5, 6)]\<rparr>]\<rparr>,
          total_labels = 1, total_pixels = 2,
          errors = [FileError ''vp'' AttributeError]\<rparr>"
  by (simp add: eval_defs)


section \<open>Properties of the viewer page\<close>

lemma fstring_center:
  "map_of locals ''viewport_id'' = Some (PStr s) \<Longrightarrow> map_of locals ''CENTER'' = None \<Longrightarrow>
   fstring locals html_placeholders = Inl (NameError ''CENTER'')"
  by (simp add: html_placeholders_def eval_def lookup_def module_globals_def)

lemma fstring_none:
  "map_of locals ''viewport_id'' = Some PNone \<Longrightarrow>
   fstring locals html_placeholders = Inl AttributeError"
  by (simp add: html_placeholders_def eval_def lookup_def)

lemma viewer_locals_viewport_id:
  "map_of (viewer_locals viewport_id viewport_bounds) ''viewport_id'' =
     Some (case viewport_bounds of
             None \<Rightarrow> PStr ''bangalore''
           | Some b \<Rightarrow> (case viewport_id of Some s \<Rightarrow> PStr s | None \<Rightarrow> PNone))"
  by (simp add: viewer_locals_def Let_def split: option.splits prod.splits)

lemma viewer_locals_upper:
  "map_of (viewer_locals viewport_id viewport_bounds) ''CENTER'' = None \<and>
   map_of (viewer_locals viewport_id viewport_bounds) ''INITIAL_ZOOM'' = None"
  by (simp add: viewer_locals_def Let_def split: option.splits prod.splits)

lemma viewer_locals_lower:
  "\<exists>c z. map_of (viewer_locals viewport_id viewport_bounds) ''center'' = Some c \<and>
         map_of (viewer_locals viewport_id viewport_bounds) ''initial_zoom'' = Some (PInt z)"
  by (simp add: viewer_locals_def Let_def split: option.splits prod.splits)

text \<open>
  C10, as stated: whatever the arguments, the call ends in a NameError. It fails when
  \<open>viewport_id\<close> is omitted and \<open>viewport_bounds\<close> is given: only the branch without
  bounds sets \<open>viewport_id\<close> to a string, so the first placeholder,
  \<open>viewport_id.title()\<close>, is evaluated on None and raises AttributeError before \<open>CENTER\<close>
  is reached.
\<close>

theorem always_name_error_counterexample:
  "create_html_viewer None (Some (12.83, 77.46, 13.14, 77.78)) None = Inl AttributeError \<and>
   create_html_viewer None (Some (12.83, 77.46, 13.14, 77.78)) None \<noteq> Inl (NameError ''CENTER'')"
  by (simp add: create_html_viewer_def Let_def fstring_none viewer_locals_viewport_id)

text \<open>
  C10, amended. Whatever the arguments and the sample image, the call ends in an
  exception before the output file is opened, so no viewer file is written. The names
  \<open>CENTER\<close> and \<open>INITIAL_ZOOM\<close> are bound nowhere, only \<open>center\<close> and \<open>initial_zoom\<close> are.
  The exception is the NameError of \<open>CENTER\<close>, unless \<open>viewport_id\<close> is omitted while
  \<open>viewport_bounds\<close> is given (then AttributeError, from \<open>viewport_id.title()\<close>) or reading
  the bounds of the sample image has already raised.
\<close>

theorem create_html_viewer_raises:
  "create_html_viewer viewport_id viewport_bounds sample_img =
     Inl (case sample_img of
            Some (Inl e) \<Rightarrow> e
          | _ \<Rightarrow> if viewport_id = None \<and> viewport_bounds \<noteq> None then AttributeError
                 else NameError ''CENTER'') \<and>
   lookup (viewer_locals viewport_id viewport_bounds) ''CENTER'' = Inl (NameError ''CENTER'') \<and>
   lookup (viewer_locals viewport_id viewport_bounds) ''INITIAL_ZOOM'' = Inl (NameError ''INITIAL_ZOOM'') \<and>
   (\<exists>c z. lookup (viewer_locals viewport_id viewport_bounds) ''center'' = Inr c \<and>
          lookup (viewer_locals viewport_id viewport_bounds) ''initial_zoom'' = Inr (PInt z))"
proof -
  let ?L = "viewer_locals viewport_id viewport_bounds"
  have up: "map_of ?L ''CENTER'' = None" "map_of ?L ''INITIAL_ZOOM'' = None"
    using viewer_locals_upper [of viewport_id viewport_bounds] by simp_all
  have unbound: "lookup ?L ''CENTER'' = Inl (NameError ''CENTER'')"
    "lookup ?L ''INITIAL_ZOOM'' = Inl (NameError ''INITIAL_ZOOM'')"
    using up by (simp_all add: lookup_def module_globals_def)
  from viewer_locals_lower [of viewport_id viewport_bounds]
  have bound: "\<exists>c z. lookup ?L ''center'' = Inr c \<and> lookup ?L ''initial_zoom'' = Inr (PInt z)"
    by (auto simp: lookup_def)
  have page: "\<And>extra. map_of extra ''viewport_id'' = None \<Longrightarrow> map_of extra ''CENTER'' = None \<Longrightarrow>
      fstring (extra @ ?L) html_placeholders =
        Inl (if viewport_id = None \<and> viewport_bounds \<noteq> None then AttributeError
             else NameError ''CENTER'')"
  proof -
    fix extra :: "(string \<times> pyval) list"
    assume e: "map_of extra ''viewport_id'' = None" "map_of extra ''CENTER'' = None"
    show "fstring (extra @ ?L) html_placeholders =
        Inl (if viewport_id = None \<and> viewport_bounds \<noteq> None then AttributeError
             else NameError ''CENTER'')"
    proof (cases "viewport_id = None \<and> viewport_bounds \<noteq> None")
      case True
      then have "map_of (extra @ ?L) ''viewport_id'' = Some PNone"
        using e by (auto simp: map_add_def viewer_locals_viewport_id)
      with True show ?thesis by (simp add: fstring_none)
    next
      case False
      then obtain s where "map_of (extra @ ?L) ''viewport_id'' = Some (PStr s)"
        using e by (cases viewport_bounds; cases viewport_id)
          (auto simp: map_add_def viewer_locals_viewport_id)
      moreover have "map_of (extra @ ?L) ''CENTER'' = None"
        using e up by (simp add: map_add_def)
      ultimately show ?thesis using False by (simp add: fstring_center)
    qed
  qed
  have run: "create_html_viewer viewport_id viewport_bounds sample_img =
     Inl (case sample_img of
            Some (Inl e) \<Rightarrow> e
          | _ \<Rightarrow> if viewport_id = None \<and> viewport_bounds \<noteq> None then AttributeError
                 else NameError ''CENTER'')"
  proof (cases sample_img)
    case None
    with page [of "[(''sample_img'', PPath ''level_4.tif'')]"] show ?thesis
      by (simp add: create_html_viewer_def Let_def)
  next
    case (Some r)
    show ?thesis
    proof (cases r)
      case (Inl e)
      with Some show ?thesis by (simp add: create_html_viewer_def Let_def)
    next
      case (Inr image_bounds)
      with Some page [of "[(''bounds'', image_bounds), (''sample_img'', PPath ''level_4.tif'')]"]
      show ?thesis by (simp add: create_html_viewer_def Let_def)
    qed
  qed
  from run unbound bound show ?thesis by blast
qed

end
